theory Spec2Isabelle
  imports Main
begin

section \<open>Strings\<close>

text \<open>
  A Python \<open>str\<close> is modelled as a \<open>string\<close>: a list of characters with code points
  0 to 255. \<open>str.isspace\<close>, \<open>str.strip\<close>, \<open>str.lower\<close> and \<open>str.join\<close> are
  written out for these code points.
\<close>

definition py_isspace :: "char \<Rightarrow> bool" where
  "py_isspace c =
     (let n = (of_char c :: nat)
      in (9 \<le> n \<and> n \<le> 13) \<or> (28 \<le> n \<and> n \<le> 32) \<or> n = 133 \<or> n = 160)"

definition strip :: "string \<Rightarrow> string" where
  "strip s = rev (dropWhile py_isspace (rev (dropWhile py_isspace s)))"

definition lower_char :: "char \<Rightarrow> char" where
  "lower_char c =
     (let n = (of_char c :: nat)
      in if (65 \<le> n \<and> n \<le> 90) \<or> (192 \<le> n \<and> n \<le> 222 \<and> n \<noteq> 215)
         then char_of (n + 32) else c)"

definition lower :: "string \<Rightarrow> string" where
  "lower s = map lower_char s"

fun join :: "string \<Rightarrow> string list \<Rightarrow> string" where
  "join sep [] = []"
| "join sep [x] = x"
| "join sep (x # y # ys) = x @ sep @ join sep (y # ys)"

definition newline :: string where
  "newline = [CHR 0x0A]"

section \<open>JSON values and the decoder\<close>

text \<open>
  A str that the decoder builds may hold any code point (an escape \<open>\uXXXX\<close> reaches
  beyond 255), so the strings inside a JSON value are lists of code points; \<open>str\<close>
  takes a \<open>string\<close> to the list of its code points.
\<close>

type_synonym codepoints = "nat list"

definition str :: "string \<Rightarrow> codepoints" where
  "str s = map of_char s"

text \<open>
  What \<open>json.loads\<close> returns: \<open>None\<close>, a bool, an int, a float, a str, a list or a
  dict. A float is kept as the text of the number. A dict is the list of its entries in
  insertion order, with distinct keys.
\<close>

datatype json =
    JNull
  | JBool bool
  | JInt int
  | JFloat string
  | JString codepoints
  | JArray "json list"
  | JObject "(codepoints \<times> json) list"


text \<open>
  How a call of \<open>json.loads\<close> ends: with a value, with \<open>JSONDecodeError\<close>, or with
  another exception, given by the name of its class (\<open>RecursionError\<close> for a text nested
  too deep, \<open>ValueError\<close> for an integer of more than 4300 digits). The decoder is a
  function of the standard library; the client's functions take it as a parameter, and
  what is proved of them holds for every decoder.
\<close>

datatype decoded = Value json | JSONDecodeError | Raises string

type_synonym decoder = "string \<Rightarrow> decoded"

text \<open>
  \<open>json_loads\<close> below is the decoder written out, for the texts that a concrete run
  decodes. A scan ends with a value and the text left over, with \<open>JSONDecodeError\<close>
  (\<open>Bad\<close>), or with another exception.
\<close>

datatype 'a scanned = Ok 'a string | Bad | Exc string

definition json_ws :: "char \<Rightarrow> bool" where
  "json_ws c = (c = CHR '' '' \<or> c = CHR 0x09 \<or> c = CHR 0x0A \<or> c = CHR 0x0D)"

definition skip_ws :: "string \<Rightarrow> string" where
  "skip_ws s = dropWhile json_ws s"

definition is_digit :: "char \<Rightarrow> bool" where
  "is_digit c = (48 \<le> (of_char c :: nat) \<and> (of_char c :: nat) \<le> 57)"

fun starts :: "char \<Rightarrow> string \<Rightarrow> bool" where
  "starts c [] = False"
| "starts c (x # xs) = (x = c)"

fun strip_prefix :: "string \<Rightarrow> string \<Rightarrow> string option" where
  "strip_prefix [] s = Some s"
| "strip_prefix (p # ps) [] = None"
| "strip_prefix (p # ps) (x # xs) = (if p = x then strip_prefix ps xs else None)"

definition digits_value :: "string \<Rightarrow> int" where
  "digits_value ds = foldl (\<lambda>acc c. 10 * acc + (of_char c - 48)) 0 ds"

text \<open>\<open>sys.int_info.default_max_str_digits\<close>\<close>

definition max_str_digits :: nat where
  "max_str_digits = 4300"

text \<open>
  A number is \<open>-?(0|[1-9][0-9]*)(\.[0-9]+)?([eE][-+]?[0-9]+)?\<close>: an int when it has
  neither fraction nor exponent, a float otherwise. The conversion of an int of more
  than \<open>max_str_digits\<close> digits raises \<open>ValueError\<close>.
\<close>

definition scan_number :: "string \<Rightarrow> json scanned" where
  "scan_number s =
     (let neg = starts (CHR ''-'') s;
          r0 = (if neg then tl s else s);
          ip = (if starts (CHR ''0'') r0 then ''0'' else takeWhile is_digit r0);
          r1 = drop (length ip) r0;
          fd = (if starts (CHR ''.'') r1 then takeWhile is_digit (tl r1) else []);
          frac = (if fd = [] then [] else CHR ''.'' # fd);
          r2 = drop (length frac) r1;
          e1 = (if starts (CHR ''e'') r2 \<or> starts (CHR ''E'') r2 then tl r2 else []);
          sg = (if starts (CHR ''+'') e1 \<or> starts (CHR ''-'') e1 then take 1 e1 else []);
          ed = takeWhile is_digit (drop (length sg) e1);
          ex = (if ed = [] then [] else take 1 r2 @ sg @ ed);
          r3 = drop (length ex) r2
      in if ip = [] then Bad
         else if frac = [] \<and> ex = []
              then (if max_str_digits < length ip then Exc ''ValueError''
                    else Ok (JInt ((if neg then - 1 else 1) * digits_value ip)) r3)
              else Ok (JFloat ((if neg then ''-'' else []) @ ip @ frac @ ex)) r3)"

definition hex_digit :: "char \<Rightarrow> nat option" where
  "hex_digit c =
     (let n = (of_char c :: nat)
      in if 48 \<le> n \<and> n \<le> 57 then Some (n - 48)
         else if 65 \<le> n \<and> n \<le> 70 then Some (n - 55)
         else if 97 \<le> n \<and> n \<le> 102 then Some (n - 87)
         else None)"

fun hex_value :: "nat \<Rightarrow> string \<Rightarrow> nat option" where
  "hex_value acc [] = Some acc"
| "hex_value acc (c # cs) =
     (case hex_digit c of None \<Rightarrow> None | Some d \<Rightarrow> hex_value (16 * acc + d) cs)"

text \<open>The four hexadecimal digits of an escape \<open>\uXXXX\<close>, at the head of a text.\<close>

definition hex4 :: "string \<Rightarrow> nat option" where
  "hex4 s = (if length s < 4 then None else hex_value 0 (take 4 s))"

definition unescape :: "char \<Rightarrow> nat option" where
  "unescape e =
     (if e = CHR 0x22 \<or> e = CHR 0x5C \<or> e = CHR ''/'' then Some (of_char e)
      else if e = CHR ''b'' then Some 8
      else if e = CHR ''f'' then Some 12
      else if e = CHR ''n'' then Some 10
      else if e = CHR ''r'' then Some 13
      else if e = CHR ''t'' then Some 9
      else None)"

text \<open>
  The text after an opening quote, up to the closing one (strict mode: no control
  character). An escape for a high surrogate that is followed by an escape for a low
  surrogate gives the one code point of the pair; any other escape \<open>\uXXXX\<close> gives
  its code point.
\<close>

fun scan_string :: "codepoints \<Rightarrow> string \<Rightarrow> (codepoints \<times> string) option" where
  "scan_string acc [] = None"
| "scan_string acc (c # cs) =
     (if c = CHR 0x22 then Some (acc, cs)
      else if c = CHR 0x5C then
        (case cs of
           [] \<Rightarrow> None
         | e # es \<Rightarrow>
             if e = CHR ''u'' then
               (case hex4 es of
                  None \<Rightarrow> None
                | Some n \<Rightarrow>
                    if 0xD800 \<le> n \<and> n \<le> 0xDBFF \<and> 6 < length (drop 4 es) \<and>
                       starts (CHR 0x5C) (drop 4 es) \<and> starts (CHR ''u'') (drop 5 es)
                    then (case hex4 (drop 6 es) of
                            None \<Rightarrow> None
                          | Some m \<Rightarrow>
                              if 0xDC00 \<le> m \<and> m \<le> 0xDFFF
                              then scan_string
                                     (acc @ [0x10000 + ((n - 0xD800) * 1024 + (m - 0xDC00))])
                                     (drop 10 es)
                              else scan_string (acc @ [n]) (drop 4 es))
                    else scan_string (acc @ [n]) (drop 4 es))
             else (case unescape e of
                     None \<Rightarrow> None
                   | Some ch \<Rightarrow> scan_string (acc @ [ch]) es))
      else if (of_char c :: nat) < 32 then None
      else scan_string (acc @ [of_char c]) cs)"

text \<open>\<open>dict(pairs)\<close>: a repeated key keeps its first position and takes the last value.\<close>

fun dict_set :: "codepoints \<Rightarrow> json \<Rightarrow> (codepoints \<times> json) list \<Rightarrow> (codepoints \<times> json) list" where
  "dict_set k v [] = [(k, v)]"
| "dict_set k v ((k', v') # kvs) =
     (if k' = k then (k, v) # kvs else (k', v') # dict_set k v kvs)"

definition scan_literal :: "string \<Rightarrow> json scanned" where
  "scan_literal s =
     (case strip_prefix ''null'' s of Some r \<Rightarrow> Ok JNull r | None \<Rightarrow>
      case strip_prefix ''true'' s of Some r \<Rightarrow> Ok (JBool True) r | None \<Rightarrow>
      case strip_prefix ''false'' s of Some r \<Rightarrow> Ok (JBool False) r | None \<Rightarrow>
      case strip_prefix ''NaN'' s of Some r \<Rightarrow> Ok (JFloat ''NaN'') r | None \<Rightarrow>
      case strip_prefix ''Infinity'' s of Some r \<Rightarrow> Ok (JFloat ''Infinity'') r | None \<Rightarrow>
      case strip_prefix ''-Infinity'' s of Some r \<Rightarrow> Ok (JFloat ''-Infinity'') r | None \<Rightarrow>
      scan_number s)"

text \<open>
  One value at the head of the text. The first argument bounds the number of calls and
  \<open>json_loads\<close> starts it at twice the length of the text plus two. The second is the
  number of lists and dicts that may still be opened inside one another: opening one
  when none is left raises \<open>RecursionError\<close>.
\<close>

fun parse_value :: "nat \<Rightarrow> nat \<Rightarrow> string \<Rightarrow> json scanned"
and parse_elements :: "nat \<Rightarrow> nat \<Rightarrow> json list \<Rightarrow> string \<Rightarrow> json scanned"
and parse_members :: "nat \<Rightarrow> nat \<Rightarrow> (codepoints \<times> json) list \<Rightarrow> string \<Rightarrow> json scanned"
where
  "parse_value 0 d s = Bad"
| "parse_value (Suc n) d s =
     (if starts (CHR 0x22) s then
        (case scan_string [] (tl s) of None \<Rightarrow> Bad | Some (t, r) \<Rightarrow> Ok (JString t) r)
      else if starts (CHR ''{'') s then
        (if d = 0 then Exc ''RecursionError''
         else let r = skip_ws (tl s)
              in if starts (CHR ''}'') r then Ok (JObject []) (tl r)
                 else parse_members n (d - 1) [] r)
      else if starts (CHR ''['') s then
        (if d = 0 then Exc ''RecursionError''
         else let r = skip_ws (tl s)
              in if starts (CHR '']'') r then Ok (JArray []) (tl r)
                 else parse_elements n (d - 1) [] r)
      else scan_literal s)"
| "parse_elements 0 d acc s = Bad"
| "parse_elements (Suc n) d acc s =
     (case parse_value n d s of
        Bad \<Rightarrow> Bad
      | Exc e \<Rightarrow> Exc e
      | Ok v r \<Rightarrow>
          (let r1 = skip_ws r
           in if starts (CHR '','') r1 then parse_elements n d (acc @ [v]) (skip_ws (tl r1))
              else if starts (CHR '']'') r1 then Ok (JArray (acc @ [v])) (tl r1)
              else Bad))"
| "parse_members 0 d acc s = Bad"
| "parse_members (Suc n) d acc s =
     (if \<not> starts (CHR 0x22) s then Bad
      else case scan_string [] (tl s) of
             None \<Rightarrow> Bad
           | Some (k, r) \<Rightarrow>
               (let r1 = skip_ws r
                in if \<not> starts (CHR '':'') r1 then Bad
                   else case parse_value n d (skip_ws (tl r1)) of
                          Bad \<Rightarrow> Bad
                        | Exc e \<Rightarrow> Exc e
                        | Ok v r2 \<Rightarrow>
                            (let r3 = skip_ws r2
                             in if starts (CHR '','') r3
                                then parse_members n d (dict_set k v acc) (skip_ws (tl r3))
                                else if starts (CHR ''}'') r3
                                then Ok (JObject (dict_set k v acc)) (tl r3)
                                else Bad)))"

text \<open>
  The recursion limit of the interpreter is 1000 (\<open>sys.getrecursionlimit()\<close>), and the
  frames on the stack when the decoder runs come off it. \<open>nesting_limit\<close> is what is
  left for the lists and dicts of the text when \<open>json.loads\<close> is called in the
  coroutine \<open>run_client\<close> under \<open>asyncio.run\<close>, in CPython 3.11; at the top level of a
  script it would be 995. Numbers, strings and literals take no level.
\<close>

definition nesting_limit :: nat where
  "nesting_limit = 986"

definition json_loads :: decoder where
  "json_loads s =
     (case parse_value (2 * length s + 2) nesting_limit (skip_ws s) of
        Bad \<Rightarrow> JSONDecodeError
      | Exc e \<Rightarrow> Raises e
      | Ok v r \<Rightarrow> if skip_ws r = [] then Value v else JSONDecodeError)"

section \<open>The calendar client (gcal_mcp_client.py)\<close>

subsection \<open>Tool descriptors and their conversion\<close>

text \<open>
  A tool as the peer lists it: \<open>name\<close>, \<open>description\<close> (a str or \<open>None\<close>) and the
  schema under the attribute \<open>inputSchema\<close> or \<open>input_schema\<close>; \<open>None\<close> stands for an
  attribute that is absent or \<open>None\<close>. A schema is a dict.
\<close>

type_synonym dict = "(codepoints \<times> json) list"

record tool_descriptor =
  td_name :: string
  td_description :: "string option"
  td_inputSchema :: "dict option"
  td_input_schema :: "dict option"

record groq_function =
  fn_name :: string
  fn_description :: string
  fn_parameters :: dict

record groq_tool =
  gt_type :: string
  gt_function :: groq_function

text \<open>
  \<open>a or b or c\<close> on values that are \<open>None\<close> or a dict (an empty dict is falsy), and
  \<open>t.description or "No description"\<close> (an empty str is falsy).
\<close>

definition params_of :: "tool_descriptor \<Rightarrow> dict" where
  "params_of t =
     (case td_inputSchema t of
        Some (kv # kvs) \<Rightarrow> kv # kvs
      | _ \<Rightarrow> (case td_input_schema t of
                Some (kv # kvs) \<Rightarrow> kv # kvs
              | _ \<Rightarrow> [(str ''type'', JString (str ''object''))]))"

definition description_of :: "tool_descriptor \<Rightarrow> string" where
  "description_of t =
     (case td_description t of
        None \<Rightarrow> ''No description''
      | Some d \<Rightarrow> if d = [] then ''No description'' else d)"

definition converted_entry :: "tool_descriptor \<Rightarrow> groq_tool" where
  "converted_entry t =
     \<lparr>gt_type = ''function'',
      gt_function = \<lparr>fn_name = td_name t, fn_description = description_of t,
                     fn_parameters = params_of t\<rparr>\<rparr>"

text \<open>The loop \<open>for t in tools: converted.append(...)\<close>.\<close>

fun convert_loop :: "tool_descriptor list \<Rightarrow> groq_tool list \<Rightarrow> groq_tool list" where
  "convert_loop [] converted = converted"
| "convert_loop (t # ts) converted = convert_loop ts (converted @ [converted_entry t])"

definition convert_mcp_tools_to_groq :: "tool_descriptor list \<Rightarrow> groq_tool list" where
  "convert_mcp_tools_to_groq tools = convert_loop tools []"

subsection \<open>Flattening a tool result\<close>

text \<open>
  A content block, by the branch of \<open>_flatten_tool_result\<close> that takes it: an object
  whose attribute \<open>type\<close> is \<open>"text"\<close>, with its attribute \<open>text\<close> when it has one; a
  dict whose entry \<open>"type"\<close> is \<open>"text"\<close>, with its entry \<open>"text"\<close> when it has one; any
  other block, given by what \<open>str(block)\<close> returns. A result has the attribute
  \<open>content\<close> (\<open>None\<close> when absent or \<open>None\<close>), the error flag of the protocol, and what
  \<open>str(result)\<close> returns.
\<close>

datatype content_block =
    TypedText "string option"
  | DictText "string option"
  | Opaque string

record call_tool_result =
  content :: "content_block list option"
  isError :: bool
  str_result :: string

fun block_part :: "content_block \<Rightarrow> string" where
  "block_part (TypedText t) = (case t of None \<Rightarrow> [] | Some x \<Rightarrow> x)"
| "block_part (DictText t) = (case t of None \<Rightarrow> [] | Some x \<Rightarrow> x)"
| "block_part (Opaque r) = r"

fun collect_parts :: "content_block list \<Rightarrow> string list \<Rightarrow> string list" where
  "collect_parts [] parts = parts"
| "collect_parts (block # blocks) parts = collect_parts blocks (parts @ [block_part block])"

definition flatten_tool_result :: "call_tool_result \<Rightarrow> string" where
  "flatten_tool_result result =
     (let parts = collect_parts (case content result of None \<Rightarrow> [] | Some bs \<Rightarrow> bs) []
      in if parts = [] then str_result result
         else join newline (filter (\<lambda>p. p \<noteq> []) parts))"

subsection \<open>Transcript, services and the state of a run\<close>

datatype tool_call =
  ToolCall (call_id: string) (call_type: string) (function_name: string)
    (function_arguments: "string option")

datatype message =
    System string
  | User string
  | Assistant string "tool_call list"
  | Tool string string string

text \<open>\<open>response.choices[0].message\<close>: \<open>content\<close> and \<open>tool_calls\<close>, each possibly \<open>None\<close>.\<close>

record chat_message =
  msg_content :: "string option"
  msg_tool_calls :: "tool_call list option"

text \<open>
  The client catches one exception, \<open>JSONDecodeError\<close>. Any other exception leaves
  \<open>run_client\<close>; it is recorded with the call that raised it (the start of the session,
  the request for a completion, the decoding of the arguments, the invocation of a
  tool, \<open>input\<close>) and the text it carries.
\<close>

datatype error =
    DiscoveryError string
  | CompletionError string
  | ArgumentsError string
  | InvocationError string
  | EOFError

datatype outcome = Normal | Raised error

text \<open>
  What a run does to the outside, in order: a completion requested, a tool invoked with
  a name and arguments, a text printed; the line \<open>Connected. Tools: [...]\<close> with the
  names it lists, and the two lines of the banner.
\<close>

datatype event =
    ModelCall
  | ToolInvoke string json
  | Printed string
  | Connected "string list"
  | Banner

text \<open>
  The services the client calls, over a state \<open>'w\<close> of the outside world that each call
  may change: the decoder; the start of the session up to \<open>list_tools\<close>, for a server
  path; \<open>chat.completions.create\<close> with the transcript and the tool list;
  \<open>session.call_tool\<close> with a name and arguments. \<open>Inl\<close> is an exception raised.
\<close>

record 'w env =
  loads :: decoder
  list_tools :: "'w \<Rightarrow> string \<Rightarrow> (string + tool_descriptor list) \<times> 'w"
  completions_create ::
    "'w \<Rightarrow> message list \<Rightarrow> groq_tool list \<Rightarrow> (string + chat_message) \<times> 'w"
  call_tool :: "'w \<Rightarrow> string \<Rightarrow> json \<Rightarrow> (string + call_tool_result) \<times> 'w"

record 'w state =
  world :: 'w
  messages :: "message list"
  trace :: "event list"

subsection \<open>The conversation loop\<close>

text \<open>
  \<open>json.loads(tc.function.arguments or "{}")\<close>, with \<open>{"_raw": tc.function.arguments}\<close>
  when the decoder raises \<open>JSONDecodeError\<close>. An exception of another class is not
  caught (\<open>Inl\<close>).
\<close>

definition parse_arguments :: "decoder \<Rightarrow> string option \<Rightarrow> string + json" where
  "parse_arguments decode a =
     (case decode (case a of None \<Rightarrow> ''{}'' | Some s \<Rightarrow> if s = [] then ''{}'' else s) of
        Value v \<Rightarrow> Inr v
      | JSONDecodeError \<Rightarrow>
          Inr (JObject [(str ''_raw'',
                         (case a of None \<Rightarrow> JNull | Some s \<Rightarrow> JString (str s)))])
      | Raises e \<Rightarrow> Inl e)"

text \<open>The loop \<open>for tc in tool_calls\<close>.\<close>

fun dispatch :: "'w env \<Rightarrow> tool_call list \<Rightarrow> 'w state \<Rightarrow> outcome \<times> 'w state" where
  "dispatch env [] s = (Normal, s)"
| "dispatch env (tc # tcs) s =
     (let name = function_name tc
      in case parse_arguments (loads env) (function_arguments tc) of
           Inl e \<Rightarrow> (Raised (ArgumentsError e), s)
         | Inr args \<Rightarrow>
             (let (r, w) = call_tool env (world s) name args;
                  s1 = s\<lparr>world := w, trace := trace s @ [ToolInvoke name args]\<rparr>
              in case r of
                   Inl e \<Rightarrow> (Raised (InvocationError e), s1)
                 | Inr result \<Rightarrow>
                     dispatch env tcs
                       (s1\<lparr>messages := messages s1 @
                              [Tool (call_id tc) name (flatten_tool_result result)]\<rparr>)))"

definition content_or_empty :: "chat_message \<Rightarrow> string" where
  "content_or_empty msg = (case msg_content msg of None \<Rightarrow> [] | Some c \<Rightarrow> c)"

text \<open>The loop \<open>for _ in range(5)\<close>, with the number of iterations left.\<close>

fun rounds :: "'w env \<Rightarrow> groq_tool list \<Rightarrow> nat \<Rightarrow> 'w state \<Rightarrow> outcome \<times> 'w state" where
  "rounds env groq_tools 0 s = (Normal, s)"
| "rounds env groq_tools (Suc n) s =
     (let (r, w) = completions_create env (world s) (messages s) groq_tools;
          s1 = s\<lparr>world := w, trace := trace s @ [ModelCall]\<rparr>
      in case r of
           Inl e \<Rightarrow> (Raised (CompletionError e), s1)
         | Inr msg \<Rightarrow>
             (case msg_tool_calls msg of
                Some (tc # tcs) \<Rightarrow>
                  (case dispatch env (tc # tcs)
                          (s1\<lparr>messages := messages s1 @
                                 [Assistant (content_or_empty msg) (tc # tcs)]\<rparr>) of
                     (Raised e, s2) \<Rightarrow> (Raised e, s2)
                   | (Normal, s2) \<Rightarrow> rounds env groq_tools n s2)
              | _ \<Rightarrow>
                  (Normal,
                   s1\<lparr>trace := trace s1 @
                         [Printed (newline @ strip (content_or_empty msg) @ newline)]\<rparr>)))"

text \<open>One user turn: the line is appended, then up to five rounds run.\<close>

definition run_turn :: "'w env \<Rightarrow> groq_tool list \<Rightarrow> string \<Rightarrow> 'w state \<Rightarrow> outcome \<times> 'w state" where
  "run_turn env groq_tools user s =
     rounds env groq_tools 5 (s\<lparr>messages := messages s @ [User user]\<rparr>)"

text \<open>
  The loop \<open>while True\<close> over the lines that standard input delivers; \<open>input\<close> raises
  \<open>EOFError\<close> when there is none left.
\<close>

fun session :: "'w env \<Rightarrow> groq_tool list \<Rightarrow> string list \<Rightarrow> 'w state \<Rightarrow> outcome \<times> 'w state" where
  "session env groq_tools [] s = (Raised EOFError, s)"
| "session env groq_tools (line # rest) s =
     (let user = strip line
      in if lower user = ''quit'' \<or> lower user = ''exit'' then (Normal, s)
         else case run_turn env groq_tools user s of
                (Raised e, s1) \<Rightarrow> (Raised e, s1)
              | (Normal, s1) \<Rightarrow> session env groq_tools rest s1)"

definition system_prompt :: string where
  "system_prompt =
     ''You are a calendar assistant. You can create, list, and cancel Google Calendar events '' @
     ''using the provided tools. Prefer ISO 8601 for times; default timezone is Asia/Colombo. '' @
     ''Ask for any missing required fields before creating or canceling events.''"

definition run_client :: "'w env \<Rightarrow> string \<Rightarrow> string list \<Rightarrow> 'w \<Rightarrow> outcome \<times> 'w state" where
  "run_client env server_path stdin w =
     (case list_tools env w server_path of
        (Inl e, w1) \<Rightarrow> (Raised (DiscoveryError e), \<lparr>world = w1, messages = [], trace = []\<rparr>)
      | (Inr tools, w1) \<Rightarrow>
          (let groq_tools = convert_mcp_tools_to_groq tools
           in session env groq_tools stdin
                \<lparr>world = w1, messages = [System system_prompt],
                 trace = [Connected (map (\<lambda>t. fn_name (gt_function t)) groq_tools), Banner]\<rparr>))"

subsection \<open>The entry point\<close>

text \<open>
  How the process ends: \<open>sys.exit\<close> with a code, the end of the script (code 0), or an
  exception that nothing caught.
\<close>

datatype exit_status = Exit nat | Uncaught error

definition usage :: string where
  "usage = ''Usage: python groq_mcp_client.py <path'' @ [CHR 0x5C] @ ''to'' @ [CHR 0x5C] @
           ''gcal_mcp_server.py>''"

definition main :: "'w env \<Rightarrow> string list \<Rightarrow> string list \<Rightarrow> 'w \<Rightarrow> exit_status \<times> 'w state" where
  "main env argv stdin w =
     (if length argv < 2
      then (Exit 1, \<lparr>world = w, messages = [], trace = [Printed usage]\<rparr>)
      else case run_client env (argv ! 1) stdin w of
             (Normal, s) \<Rightarrow> (Exit 0, s)
           | (Raised e, s) \<Rightarrow> (Uncaught e, s))"

subsection \<open>Reading transcripts and traces\<close>

text \<open>
  \<open>pending ps ms\<close> walks a stretch of transcript with the ids \<open>ps\<close> of the requests
  still unanswered, in the order they were made. A tool message must carry the first
  of them; an assistant message must come when none is left, and makes the ids of its
  requests the unanswered ones; any other message must come when none is left. The
  result is the ids left unanswered at the end, or \<open>None\<close> when a message broke the rule.
\<close>

fun pending :: "string list \<Rightarrow> message list \<Rightarrow> string list option" where
  "pending ps [] = Some ps"
| "pending ps (Tool i n c # ms) =
     (case ps of [] \<Rightarrow> None | p # ps' \<Rightarrow> if p = i then pending ps' ms else None)"
| "pending ps (Assistant c tcs # ms) =
     (if ps = [] then pending (map call_id tcs) ms else None)"
| "pending ps (m # ms) = (if ps = [] then pending [] ms else None)"

text \<open>
  The tool messages that answer the requests \<open>tcs\<close>, first to last, with the contents
  \<open>rs\<close>: one for each request that has a content.
\<close>

definition answers :: "tool_call list \<Rightarrow> string list \<Rightarrow> message list" where
  "answers tcs rs = map (\<lambda>(tc, r). Tool (call_id tc) (function_name tc) r) (zip tcs rs)"

fun is_model_call :: "event \<Rightarrow> bool" where
  "is_model_call ModelCall = True"
| "is_model_call e = False"

fun is_tool_invoke :: "event \<Rightarrow> bool" where
  "is_tool_invoke (ToolInvoke n a) = True"
| "is_tool_invoke e = False"

fun is_printed :: "event \<Rightarrow> bool" where
  "is_printed (Printed t) = True"
| "is_printed e = False"

fun is_tool_message :: "message \<Rightarrow> bool" where
  "is_tool_message (Tool i n c) = True"
| "is_tool_message m = False"

definition model_calls :: "event list \<Rightarrow> nat" where
  "model_calls tr = length (filter is_model_call tr)"

subsection \<open>Scripted services\<close>

text \<open>
  Services for concrete runs. The state of the world is the number of completions made
  so far; the model answers the \<open>k\<close>-th request for a completion with \<open>replies k\<close>, the
  peer lists one tool \<open>X\<close> and answers every invocation with \<open>answer\<close>.
\<close>

definition scripted :: "(nat \<Rightarrow> chat_message) \<Rightarrow> (string + call_tool_result) \<Rightarrow> nat env" where
  "scripted replies answer =
     \<lparr>loads = json_loads,
      list_tools = (\<lambda>w path. (Inr [\<lparr>td_name = ''X'', td_description = None,
                                    td_inputSchema = None, td_input_schema = None\<rparr>], w)),
      completions_create = (\<lambda>w ms tools. (Inr (replies w), Suc w)),
      call_tool = (\<lambda>w name args. (answer, w))\<rparr>"

definition request_x :: "string \<Rightarrow> string \<Rightarrow> chat_message" where
  "request_x i args =
     \<lparr>msg_content = None,
      msg_tool_calls = Some [ToolCall i ''function'' ''X'' (Some args)]\<rparr>"

definition say :: "string \<Rightarrow> chat_message" where
  "say t = \<lparr>msg_content = Some t, msg_tool_calls = None\<rparr>"

definition x_then_done :: "nat \<Rightarrow> chat_message" where
  \<open>x_then_done k = (if k = 0 then request_x ''call_1'' ''{"a":1}'' else say ''done'')\<close>

fun ordinal :: "nat \<Rightarrow> string" where
  "ordinal 0 = ''1''"
| "ordinal (Suc 0) = ''2''"
| "ordinal (Suc (Suc 0)) = ''3''"
| "ordinal (Suc (Suc (Suc 0))) = ''4''"
| "ordinal (Suc (Suc (Suc (Suc k)))) = ''5''"

definition always_x :: "nat \<Rightarrow> chat_message" where
  "always_x k = request_x (''call_'' @ ordinal k) ''{}''"

definition failing_model :: "nat env" where
  "failing_model =
     (scripted always_x (Inr \<lparr>content = None, isError = False, str_result = []\<rparr>))
       \<lparr>completions_create := (\<lambda>w ms tools. (Inl ''rate limit'', w))\<rparr>"

definition text_result :: "string \<Rightarrow> call_tool_result" where
  "text_result t =
     \<lparr>content = Some [TypedText (Some t)], isError = False, str_result = ''CallToolResult''\<rparr>"

definition error_result :: call_tool_result where
  "error_result =
     \<lparr>content = Some [TypedText (Some ''Error executing tool X: no such event'')],
      isError = True, str_result = ''CallToolResult''\<rparr>"

definition demo_tools :: "tool_descriptor list" where
  "demo_tools =
     [\<lparr>td_name = ''create_event'', td_description = Some ''Create an event'',
       td_inputSchema = Some [(str ''type'', JString (str ''object'')),
                              (str ''required'', JArray [JString (str ''title'')])],
       td_input_schema = None\<rparr>,
      \<lparr>td_name = ''list_upcoming'', td_description = None,
       td_inputSchema = None, td_input_schema = None\<rparr>]"

text \<open>
  A completion that requests three tools at once, and a peer that has no tool \<open>Y\<close>; a
  peer that stops answering once five completions have been made.
\<close>

definition three_requests :: "nat \<Rightarrow> chat_message" where
  "three_requests k =
     \<lparr>msg_content = None,
      msg_tool_calls = Some [ToolCall ''a'' ''function'' ''X'' (Some ''{}''),
                             ToolCall ''b'' ''function'' ''Y'' (Some ''{}''),
                             ToolCall ''c'' ''function'' ''X'' (Some ''{}'')]\<rparr>"

definition picky :: "nat env" where
  "picky =
     (scripted three_requests (Inr (text_result ''ok'')))
       \<lparr>call_tool := (\<lambda>w name args. if name = ''Y'' then (Inl ''unknown tool'', w)
                                       else (Inr (text_result ''ok''), w))\<rparr>"

definition tiring :: "nat env" where
  "tiring =
     (scripted always_x (Inr (text_result ''ok'')))
       \<lparr>call_tool := (\<lambda>w name args. if 5 \<le> w then (Inl ''timeout'', w)
                                       else (Inr (text_result ''ok''), w))\<rparr>"

text \<open>
  The state in which four rounds leave a session started with the line \<open>hi\<close>, when the
  model has requested \<open>X\<close> in each of them and the peer has answered.
\<close>

definition after_four :: "nat state" where
  "after_four =
     \<lparr>world = 4,
      messages = [System system_prompt, User ''hi'',
                  Assistant [] [ToolCall ''call_1'' ''function'' ''X'' (Some ''{}'')],
                  Tool ''call_1'' ''X'' ''ok'',
                  Assistant [] [ToolCall ''call_2'' ''function'' ''X'' (Some ''{}'')],
                  Tool ''call_2'' ''X'' ''ok'',
                  Assistant [] [ToolCall ''call_3'' ''function'' ''X'' (Some ''{}'')],
                  Tool ''call_3'' ''X'' ''ok'',
                  Assistant [] [ToolCall ''call_4'' ''function'' ''X'' (Some ''{}'')],
                  Tool ''call_4'' ''X'' ''ok''],
      trace = [ModelCall, ToolInvoke ''X'' (JObject []),
               ModelCall, ToolInvoke ''X'' (JObject []),
               ModelCall, ToolInvoke ''X'' (JObject []),
               ModelCall, ToolInvoke ''X'' (JObject [])]\<rparr>"

definition demo_argv :: "string list" where
  "demo_argv = [''groq_mcp_client.py'', ''gcal_mcp_server.py'']"

definition start :: "nat state" where
  "start = \<lparr>world = 0, messages = [System system_prompt], trace = []\<rparr>"

section \<open>The to-do service (main.py)\<close>

text \<open>
  The pydantic models \<open>Subtask\<close> and \<open>Task\<close>, the request bodies \<open>SubtaskCreate\<close>,
  \<open>TaskCreate\<close> and \<open>SubtaskUpdate\<close>, and the module state: the dictionary \<open>TASKS\<close>
  and the two id counters. Python integers are unbounded, hence \<open>int\<close>. A handler that
  raises \<open>HTTPException\<close> returns \<open>Inl\<close> of the exception; every handler returns the
  module state it leaves behind, so that what a failing request did to the store is
  part of its result.
\<close>

record subtask_create =
  sc_title :: string
  sc_allocated_time :: int
  sc_done :: bool

record subtask =
  st_id :: int
  st_title :: string
  st_allocated_time :: int
  st_done :: bool

record task_create =
  tc_title :: string
  tc_description :: "string option"
  tc_subtasks :: "subtask_create list"

record task =
  t_id :: int
  t_title :: string
  t_description :: "string option"
  t_done :: bool
  t_subtasks :: "subtask list"

record subtask_update =
  su_title :: "string option"
  su_done :: "bool option"

datatype http_exception = HTTPException (status_code: nat) (detail: string)

record store =
  TASKS :: "int \<rightharpoonup> task"
  task_id_seq :: int
  subtask_id_seq :: int

definition next_task_id :: "store \<Rightarrow> int \<times> store" where
  "next_task_id s = (task_id_seq s + 1, s\<lparr>task_id_seq := task_id_seq s + 1\<rparr>)"

definition next_subtask_id :: "store \<Rightarrow> int \<times> store" where
  "next_subtask_id s = (subtask_id_seq s + 1, s\<lparr>subtask_id_seq := subtask_id_seq s + 1\<rparr>)"

text \<open>\<open>Subtask(id=_next_subtask_id(), **st.model_dump())\<close>\<close>

definition new_subtask :: "subtask_create \<Rightarrow> store \<Rightarrow> subtask \<times> store" where
  "new_subtask p s =
     (let (i, s') = next_subtask_id s
      in (\<lparr>st_id = i, st_title = sc_title p, st_allocated_time = sc_allocated_time p,
           st_done = sc_done p\<rparr>, s'))"

text \<open>The list comprehension of \<open>create_task\<close>, one id drawn per element, left to right.\<close>

fun build_subtasks :: "subtask_create list \<Rightarrow> store \<Rightarrow> subtask list \<times> store" where
  "build_subtasks [] s = ([], s)"
| "build_subtasks (p # ps) s =
     (let (sub, s') = new_subtask p s;
          (subs, s'') = build_subtasks ps s'
      in (sub # subs, s''))"

text \<open>\<open>len(subs) > 0 and all(s.done for s in subs)\<close>\<close>

definition all_done :: "subtask list \<Rightarrow> bool" where
  "all_done subs = (length subs > 0 \<and> list_all st_done subs)"

definition create_task :: "task_create \<Rightarrow> store \<Rightarrow> task \<times> store" where
  "create_task payload s =
     (let (task_id, s1) = next_task_id s;
          (subs, s2) = build_subtasks (tc_subtasks payload) s1;
          task = \<lparr>t_id = task_id, t_title = tc_title payload,
                  t_description = tc_description payload,
                  t_done = all_done subs, t_subtasks = subs\<rparr>
      in (task, s2\<lparr>TASKS := (TASKS s2)(task_id \<mapsto> task)\<rparr>))"

definition add_subtask ::
  "int \<Rightarrow> subtask_create \<Rightarrow> store \<Rightarrow> (http_exception + task) \<times> store" where
  "add_subtask task_id payload s =
     (case TASKS s task_id of
        None \<Rightarrow> (Inl (HTTPException 404 ''Task not found''), s)
      | Some task \<Rightarrow>
          (let (sub, s1) = new_subtask payload s;
               task1 = task\<lparr>t_subtasks := t_subtasks task @ [sub]\<rparr>;
               task2 = task1\<lparr>t_done := all_done (t_subtasks task1)\<rparr>
           in (Inr task2, s1\<lparr>TASKS := (TASKS s1)(task_id \<mapsto> task2)\<rparr>)))"

text \<open>
  \<open>next((s for s in task.subtasks if s.id == subtask_id), None)\<close> picks the first
  subtask with the id; the two assignments then change that object inside the list.
\<close>

fun find_subtask :: "int \<Rightarrow> subtask list \<Rightarrow> subtask option" where
  "find_subtask i [] = None"
| "find_subtask i (x # xs) = (if st_id x = i then Some x else find_subtask i xs)"

definition apply_update :: "subtask_update \<Rightarrow> subtask \<Rightarrow> subtask" where
  "apply_update payload sub =
     (let sub1 = (case su_title payload of None \<Rightarrow> sub | Some t \<Rightarrow> sub\<lparr>st_title := t\<rparr>)
      in (case su_done payload of None \<Rightarrow> sub1 | Some d \<Rightarrow> sub1\<lparr>st_done := d\<rparr>))"

fun update_first :: "int \<Rightarrow> subtask_update \<Rightarrow> subtask list \<Rightarrow> subtask list" where
  "update_first i payload [] = []"
| "update_first i payload (x # xs) =
     (if st_id x = i then apply_update payload x # xs else x # update_first i payload xs)"

definition update_subtask ::
  "int \<Rightarrow> int \<Rightarrow> subtask_update \<Rightarrow> store \<Rightarrow> (http_exception + task) \<times> store" where
  "update_subtask task_id subtask_id payload s =
     (case TASKS s task_id of
        None \<Rightarrow> (Inl (HTTPException 404 ''Task not found''), s)
      | Some task \<Rightarrow>
          (case find_subtask subtask_id (t_subtasks task) of
             None \<Rightarrow> (Inl (HTTPException 404 ''Subtask not found''), s)
           | Some sub \<Rightarrow>
               (let task1 = task\<lparr>t_subtasks := update_first subtask_id payload (t_subtasks task)\<rparr>;
                    task2 = task1\<lparr>t_done := all_done (t_subtasks task1)\<rparr>
                in (Inr task2, s\<lparr>TASKS := (TASKS s)(task_id \<mapsto> task2)\<rparr>))))"

text \<open>The invariant the three handlers maintain on a task.\<close>

definition done_consistent :: "task \<Rightarrow> bool" where
  "done_consistent t = (t_done t \<longleftrightarrow> (t_subtasks t \<noteq> [] \<and> (\<forall>x \<in> set (t_subtasks t). st_done x)))"

definition empty_store :: store where
  "empty_store = \<lparr>TASKS = Map.empty, task_id_seq = 0, subtask_id_seq = 0\<rparr>"

text \<open>A store with one task, for concrete requests.\<close>

definition demo_payload :: task_create where
  "demo_payload =
     \<lparr>tc_title = ''shop'', tc_description = None,
      tc_subtasks = [\<lparr>sc_title = ''milk'', sc_allocated_time = 5, sc_done = True\<rparr>]\<rparr>"

definition demo_task :: task where
  "demo_task =
     \<lparr>t_id = 1, t_title = ''shop'', t_description = None, t_done = True,
      t_subtasks = [\<lparr>st_id = 1, st_title = ''milk'', st_allocated_time = 5, st_done = True\<rparr>]\<rparr>"

definition demo_store :: store where
  "demo_store = \<lparr>TASKS = [1 \<mapsto> demo_task], task_id_seq = 1, subtask_id_seq = 1\<rparr>"

definition demo_sub :: subtask_create where
  "demo_sub = \<lparr>sc_title = ''eggs'', sc_allocated_time = 3, sc_done = False\<rparr>"

definition demo_update :: subtask_update where
  "demo_update = \<lparr>su_title = None, su_done = Some False\<rparr>"

section \<open>Evaluation of the fixtures\<close>

lemma loads_a1: \<open>json_loads ''{"a":1}'' = Value (JObject [(str ''a'', JInt 1)])\<close>
  by code_simp

lemma loads_empty_object: "json_loads ''{}'' = Value (JObject [])"
  by code_simp

lemma loads_five: "json_loads ''5'' = Value (JInt 5)"
  by code_simp

lemma loads_bad: "json_loads ''{bad'' = JSONDecodeError"
  by code_simp

lemma strip_done: "strip ''done'' = ''done''"
  by code_simp

lemma line_hi: "strip ''hi'' = ''hi''" "lower ''hi'' \<noteq> ''quit''" "lower ''hi'' \<noteq> ''exit''"
  by code_simp+

lemma line_quit: "lower (strip ''  QuIt '') = ''quit''" "lower (strip ''EXIT'') = ''exit''"
  by code_simp+

lemma five_Suc: "(5::nat) = Suc (Suc (Suc (Suc (Suc 0))))"
  by simp

lemmas run_simps =
  run_turn_def start_def scripted_def x_then_done_def always_x_def request_x_def say_def
  text_result_def error_result_def failing_model_def three_requests_def picky_def tiring_def
  five_Suc Let_def parse_arguments_def flatten_tool_result_def content_or_empty_def
  loads_a1 loads_empty_object loads_five loads_bad strip_done line_hi line_quit

section \<open>One step of each loop\<close>

lemma dispatch_arguments_raise:
  "parse_arguments (loads env) (function_arguments tc) = Inl e \<Longrightarrow>
   dispatch env (tc # tcs) s = (Raised (ArgumentsError e), s)"
  by (simp add: Let_def)

lemma dispatch_result:
  "parse_arguments (loads env) (function_arguments tc) = Inr args \<Longrightarrow>
   call_tool env (world s) (function_name tc) args = (Inr res, w) \<Longrightarrow>
   dispatch env (tc # tcs) s =
     dispatch env tcs
       (s\<lparr>world := w,
          trace := trace s @ [ToolInvoke (function_name tc) args],
          messages := messages s @
                        [Tool (call_id tc) (function_name tc) (flatten_tool_result res)]\<rparr>)"
  by (simp add: Let_def)

lemma dispatch_raise:
  "parse_arguments (loads env) (function_arguments tc) = Inr args \<Longrightarrow>
   call_tool env (world s) (function_name tc) args = (Inl e, w) \<Longrightarrow>
   dispatch env (tc # tcs) s =
     (Raised (InvocationError e),
      s\<lparr>world := w, trace := trace s @ [ToolInvoke (function_name tc) args]\<rparr>)"
  by (simp add: Let_def)

lemma rounds_raise:
  "completions_create env (world s) (messages s) tools = (Inl e, w) \<Longrightarrow>
   rounds env tools (Suc n) s =
     (Raised (CompletionError e), s\<lparr>world := w, trace := trace s @ [ModelCall]\<rparr>)"
  by (simp add: Let_def)

lemma rounds_final:
  "completions_create env (world s) (messages s) tools = (Inr msg, w) \<Longrightarrow>
   msg_tool_calls msg = None \<or> msg_tool_calls msg = Some [] \<Longrightarrow>
   rounds env tools (Suc n) s =
     (Normal, s\<lparr>world := w,
                trace := trace s @ [ModelCall,
                                    Printed (newline @ strip (content_or_empty msg) @ newline)]\<rparr>)"
  by (auto simp: Let_def)

lemma rounds_tools:
  "completions_create env (world s) (messages s) tools = (Inr msg, w) \<Longrightarrow>
   msg_tool_calls msg = Some (tc # tcs) \<Longrightarrow>
   rounds env tools (Suc n) s =
     (case dispatch env (tc # tcs)
             (s\<lparr>world := w, trace := trace s @ [ModelCall],
                messages := messages s @ [Assistant (content_or_empty msg) (tc # tcs)]\<rparr>) of
        (Raised e, s2) \<Rightarrow> (Raised e, s2)
      | (Normal, s2) \<Rightarrow> rounds env tools n s2)"
  by (simp add: Let_def)

text \<open>
  What the loop over the requests leaves behind, whichever way it ends: a tool message
  for each of the first requests, in their order, with the id and the name of the
  request; for all of them when it returns normally, and for fewer than all when an
  exception ends it. \<open>answers\<close> pairs requests with the contents of their tool messages.
\<close>

lemma dispatch_shape:
  "dispatch env tcs s = (oc, s') \<Longrightarrow>
     \<exists>rs tr. messages s' = messages s @ answers tcs rs \<and> length rs \<le> length tcs \<and>
             (oc = Normal \<longrightarrow> length rs = length tcs) \<and>
             (oc \<noteq> Normal \<longrightarrow> length rs < length tcs) \<and>
             trace s' = trace s @ tr \<and> list_all is_tool_invoke tr \<and>
             (oc = Normal \<longrightarrow> length tr = length tcs)"
proof (induction tcs arbitrary: s)
  case Nil
  then have "oc = Normal" "s' = s" by simp_all
  then show ?case
    by (intro exI[of _ "[]"]) (simp add: answers_def)
next
  case (Cons tc tcs)
  show ?case
  proof (cases "parse_arguments (loads env) (function_arguments tc)")
    case (Inl e)
    from dispatch_arguments_raise[OF Inl, of tcs s] Cons.prems
    have "oc = Raised (ArgumentsError e)" "s' = s" by (simp_all del: dispatch.simps)
    then show ?thesis
      by (intro exI[of _ "[]"]) (simp add: answers_def)
  next
    case (Inr args)
    obtain r w where cw: "call_tool env (world s) (function_name tc) args = (r, w)"
      by (cases "call_tool env (world s) (function_name tc) args")
    show ?thesis
    proof (cases r)
      case (Inl e)
      from dispatch_raise[OF Inr cw[unfolded Inl], of tcs] Cons.prems
      have "oc = Raised (InvocationError e)"
        "s' = s\<lparr>world := w, trace := trace s @ [ToolInvoke (function_name tc) args]\<rparr>"
        by (simp_all del: dispatch.simps)
      then show ?thesis
        by (intro exI[of _ "[]"] exI[of _ "[ToolInvoke (function_name tc) args]"])
           (simp add: answers_def)
    next
      case res: (Inr res)
      define s1 where "s1 = s\<lparr>world := w,
          trace := trace s @ [ToolInvoke (function_name tc) args],
          messages := messages s @
                        [Tool (call_id tc) (function_name tc) (flatten_tool_result res)]\<rparr>"
      from dispatch_result[OF Inr cw[unfolded res], of tcs] Cons.prems
      have d: "dispatch env tcs s1 = (oc, s')"
        by (simp add: s1_def del: dispatch.simps)
      from Cons.IH[OF d] obtain rs tr where
        ih: "messages s' = messages s1 @ answers tcs rs \<and> length rs \<le> length tcs \<and>
             (oc = Normal \<longrightarrow> length rs = length tcs) \<and>
             (oc \<noteq> Normal \<longrightarrow> length rs < length tcs) \<and>
             trace s' = trace s1 @ tr \<and> list_all is_tool_invoke tr \<and>
             (oc = Normal \<longrightarrow> length tr = length tcs)"
        by (elim exE)
      show ?thesis
        by (intro exI[of _ "flatten_tool_result res # rs"]
                  exI[of _ "ToolInvoke (function_name tc) args # tr"])
           (use ih in \<open>simp add: s1_def answers_def\<close>)
    qed
  qed
qed

section \<open>The transcript of a turn\<close>

lemma pending_append:
  "pending ps (xs @ ys) = (case pending ps xs of None \<Rightarrow> None | Some q \<Rightarrow> pending q ys)"
  by (induction ps xs rule: pending.induct) (auto split: list.splits)

lemma answers_Nil [simp]: "answers tcs [] = []" "answers [] rs = []"
  by (simp_all add: answers_def)

lemma answers_Cons [simp]:
  "answers (tc # tcs) (r # rs) = Tool (call_id tc) (function_name tc) r # answers tcs rs"
  by (simp add: answers_def)

lemma length_answers: "length (answers tcs rs) = min (length tcs) (length rs)"
  by (simp add: answers_def)

lemma answers_tool_messages: "list_all is_tool_message (answers tcs rs)"
  by (induction tcs arbitrary: rs) (case_tac rs; simp)+

lemma pending_answers:
  "length rs \<le> length tcs \<Longrightarrow>
   pending (map call_id tcs) (answers tcs rs) = Some (drop (length rs) (map call_id tcs))"
proof (induction tcs arbitrary: rs)
  case Nil
  then show ?case by simp
next
  case (Cons tc tcs)
  then show ?case by (cases rs) simp_all
qed

text \<open>
  The tool messages that \<open>dispatch\<close> appends answer the requests it was given, first to
  last; when it returns normally every request has its answer.
\<close>

lemma dispatch_pending:
  "dispatch env tcs s = (oc, s') \<Longrightarrow>
     \<exists>new. messages s' = messages s @ new \<and>
           (\<exists>q. pending (map call_id tcs) new = Some q) \<and>
           (oc = Normal \<longrightarrow> pending (map call_id tcs) new = Some [])"
proof -
  assume "dispatch env tcs s = (oc, s')"
  from dispatch_shape[OF this] obtain rs where
    m: "messages s' = messages s @ answers tcs rs" and l: "length rs \<le> length tcs"
    and n: "oc = Normal \<longrightarrow> length rs = length tcs"
    by (elim exE conjE)
  show ?thesis
    by (intro exI[of _ "answers tcs rs"]) (use m n pending_answers[OF l] in simp)
qed

lemma rounds_pending:
  "rounds env tools n s = (oc, s') \<Longrightarrow>
     \<exists>new. messages s' = messages s @ new \<and>
           (\<exists>q. pending [] new = Some q) \<and>
           (oc = Normal \<longrightarrow> pending [] new = Some [])"
proof (induction n arbitrary: s)
  case 0
  then have "oc = Normal" "s' = s" by simp_all
  then show ?case by (intro exI[of _ "[]"]) simp
next
  case (Suc n)
  obtain r w where cc: "completions_create env (world s) (messages s) tools = (r, w)"
    by (cases "completions_create env (world s) (messages s) tools")
  show ?case
  proof (cases r)
    case (Inl e)
    from rounds_raise[OF cc[unfolded Inl], of n] Suc.prems
    have "messages s' = messages s" by (auto simp del: rounds.simps)
    then show ?thesis by (intro exI[of _ "[]"]) simp
  next
    case (Inr msg)
    show ?thesis
    proof (cases "msg_tool_calls msg = None \<or> msg_tool_calls msg = Some []")
      case True
      from rounds_final[OF cc[unfolded Inr] True, of n] Suc.prems
      have "messages s' = messages s" by (auto simp del: rounds.simps)
      then show ?thesis by (intro exI[of _ "[]"]) simp
    next
      case False
      then obtain tc tcs' where tcs: "msg_tool_calls msg = Some (tc # tcs')"
        by (cases "msg_tool_calls msg"; cases "the (msg_tool_calls msg)") auto
      define s1 where "s1 = s\<lparr>world := w, trace := trace s @ [ModelCall],
           messages := messages s @ [Assistant (content_or_empty msg) (tc # tcs')]\<rparr>"
      obtain od s2 where d: "dispatch env (tc # tcs') s1 = (od, s2)"
        by (cases "dispatch env (tc # tcs') s1")
      from rounds_tools[OF cc[unfolded Inr] tcs, of n] d Suc.prems
      have step: "(case od of Raised e \<Rightarrow> (Raised e, s2) | Normal \<Rightarrow> rounds env tools n s2)
                    = (oc, s')"
        by (cases od) (simp_all add: s1_def del: rounds.simps dispatch.simps)
      from dispatch_pending[OF d] obtain new1 where
        n1: "messages s2 = messages s1 @ new1 \<and>
             (\<exists>q. pending (map call_id (tc # tcs')) new1 = Some q) \<and>
             (od = Normal \<longrightarrow> pending (map call_id (tc # tcs')) new1 = Some [])"
        by (elim exE)
      have ms1: "messages s1 = messages s @ [Assistant (content_or_empty msg) (tc # tcs')]"
        by (simp add: s1_def)
      show ?thesis
      proof (cases od)
        case (Raised e)
        with step have "oc = Raised e" "s' = s2" by simp_all
        with n1 ms1 show ?thesis
          by (intro exI[of _ "Assistant (content_or_empty msg) (tc # tcs') # new1"])
             (auto simp del: dispatch.simps)
      next
        case Normal
        with step have r: "rounds env tools n s2 = (oc, s')" by (simp del: rounds.simps)
        from Suc.IH[OF r] obtain new2 where
          n2: "messages s' = messages s2 @ new2 \<and> (\<exists>q. pending [] new2 = Some q) \<and>
               (oc = Normal \<longrightarrow> pending [] new2 = Some [])"
          by (elim exE)
        from n1 n2 Normal ms1 show ?thesis
          by (intro exI[of _ "Assistant (content_or_empty msg) (tc # tcs') # new1 @ new2"])
             (auto simp: pending_append simp del: dispatch.simps)
      qed
    qed
  qed
qed

section \<open>The trace of a turn\<close>

lemma tool_invoke_not_model: "is_tool_invoke e \<Longrightarrow> \<not> is_model_call e \<and> \<not> is_printed e"
  by (cases e) simp_all

lemma model_calls_tool_invokes: "list_all is_tool_invoke tr \<Longrightarrow> model_calls tr = 0"
  by (induction tr) (simp_all add: model_calls_def tool_invoke_not_model)

lemma printed_tool_invokes: "list_all is_tool_invoke tr \<Longrightarrow> \<not> list_ex is_printed tr"
  by (induction tr) (simp_all add: tool_invoke_not_model)

lemma last_list_all: "xs \<noteq> [] \<Longrightarrow> list_all P xs \<Longrightarrow> P (last xs)"
  by (simp add: list_all_iff)

lemma dispatch_trace:
  "dispatch env tcs s = (oc, s') \<Longrightarrow>
     \<exists>tr. trace s' = trace s @ tr \<and> list_all is_tool_invoke tr \<and>
          (oc = Normal \<longrightarrow>
             length tr = length tcs \<and>
             (\<exists>new. messages s' = messages s @ new \<and> length new = length tcs \<and>
                    list_all is_tool_message new))"
proof -
  assume "dispatch env tcs s = (oc, s')"
  from dispatch_shape[OF this] obtain rs tr where
    m: "messages s' = messages s @ answers tcs rs"
    and n: "oc = Normal \<longrightarrow> length rs = length tcs"
    and t: "trace s' = trace s @ tr" "list_all is_tool_invoke tr"
      "oc = Normal \<longrightarrow> length tr = length tcs"
    by (elim exE conjE)
  have "\<exists>new. messages s' = messages s @ new \<and> length new = length tcs \<and>
              list_all is_tool_message new" if "oc = Normal"
    by (intro exI[of _ "answers tcs rs"])
       (use m n that in \<open>simp add: length_answers answers_tool_messages\<close>)
  with t show ?thesis by (intro exI[of _ tr]) simp
qed

lemma rounds_trace:
  "rounds env tools n s = (oc, s') \<Longrightarrow>
     \<exists>tr. trace s' = trace s @ tr \<and> model_calls tr \<le> n \<and>
          (oc = Normal \<and> \<not> list_ex is_printed tr \<longrightarrow>
             model_calls tr = n \<and>
             (0 < n \<longrightarrow> is_tool_invoke (last tr) \<and> is_tool_message (last (messages s'))))"
proof (induction n arbitrary: s)
  case 0
  then have "oc = Normal" "s' = s" by simp_all
  then show ?case by (intro exI[of _ "[]"]) (simp add: model_calls_def)
next
  case (Suc n)
  obtain r w where cc: "completions_create env (world s) (messages s) tools = (r, w)"
    by (cases "completions_create env (world s) (messages s) tools")
  show ?case
  proof (cases r)
    case (Inl e)
    from rounds_raise[OF cc[unfolded Inl], of n] Suc.prems
    have "oc = Raised (CompletionError e)" "trace s' = trace s @ [ModelCall]"
      by (auto simp del: rounds.simps)
    then show ?thesis
      by (intro exI[of _ "[ModelCall]"]) (simp add: model_calls_def)
  next
    case (Inr msg)
    show ?thesis
    proof (cases "msg_tool_calls msg = None \<or> msg_tool_calls msg = Some []")
      case True
      let ?tr = "[ModelCall,
                  Printed (newline @ strip (content_or_empty msg) @ newline)]"
      from rounds_final[OF cc[unfolded Inr] True, of n] Suc.prems
      have "trace s' = trace s @ ?tr"
        by (auto simp del: rounds.simps)
      then show ?thesis
        by (intro exI[of _ ?tr]) (simp add: model_calls_def)
    next
      case False
      then obtain tc tcs' where tcs: "msg_tool_calls msg = Some (tc # tcs')"
        by (cases "msg_tool_calls msg"; cases "the (msg_tool_calls msg)") auto
      define s1 where "s1 = s\<lparr>world := w, trace := trace s @ [ModelCall],
           messages := messages s @ [Assistant (content_or_empty msg) (tc # tcs')]\<rparr>"
      obtain od s2 where d: "dispatch env (tc # tcs') s1 = (od, s2)"
        by (cases "dispatch env (tc # tcs') s1")
      from rounds_tools[OF cc[unfolded Inr] tcs, of n] d Suc.prems
      have step: "(case od of Raised e \<Rightarrow> (Raised e, s2) | Normal \<Rightarrow> rounds env tools n s2) = (oc, s')"
        by (cases od) (simp_all add: s1_def del: rounds.simps dispatch.simps)
      from dispatch_trace[OF d] obtain trd where
        td: "trace s2 = trace s1 @ trd" "list_all is_tool_invoke trd"
        and tdn: "od = Normal \<longrightarrow> length trd = length (tc # tcs') \<and>
           (\<exists>new. messages s2 = messages s1 @ new \<and> length new = length (tc # tcs') \<and>
                  list_all is_tool_message new)" by blast
      have mc0: "model_calls trd = 0" using td(2) by (rule model_calls_tool_invokes)
      have ts1: "trace s1 = trace s @ [ModelCall]" by (simp add: s1_def)
      show ?thesis
      proof (cases od)
        case (Raised e)
        with step have "oc = Raised e" "s' = s2" by simp_all
        with td ts1 mc0 show ?thesis
          by (intro exI[of _ "ModelCall # trd"])
             (simp add: model_calls_def)
      next
        case Normal
        with step have r: "rounds env tools n s2 = (oc, s')" by (simp del: rounds.simps)
        from Suc.IH[OF r] obtain trr where
          tr0: "trace s' = trace s2 @ trr \<and> model_calls trr \<le> n \<and>
           (oc = Normal \<and> \<not> list_ex is_printed trr \<longrightarrow>
             model_calls trr = n \<and>
             (0 < n \<longrightarrow> is_tool_invoke (last trr) \<and> is_tool_message (last (messages s'))))"
          by (rule exE)
        from tr0 have tr: "trace s' = trace s2 @ trr" "model_calls trr \<le> n"
          by (rule conjunct1, rule conjunct2[THEN conjunct1])
        from tr0 have trn: "oc = Normal \<and> \<not> list_ex is_printed trr \<longrightarrow>
             model_calls trr = n \<and>
             (0 < n \<longrightarrow> is_tool_invoke (last trr) \<and> is_tool_message (last (messages s')))"
          by (rule conjunct2[THEN conjunct2])
        from tdn Normal obtain new where
          nw0: "messages s2 = messages s1 @ new \<and> length new = length (tc # tcs') \<and>
                list_all is_tool_message new" by (elim impE conjE exE) simp_all
        from tdn Normal have nwl: "length trd = length (tc # tcs')" by simp
        from nw0 nwl have nw: "length trd = length (tc # tcs')" "messages s2 = messages s1 @ new"
          "length new = length (tc # tcs')" "list_all is_tool_message new" by simp_all
        have ne: "trd \<noteq> []" "new \<noteq> []" using nw by auto
        let ?tr = "ModelCall # trd @ trr"
        have t1: "trace s' = trace s @ ?tr" using tr td ts1 by simp
        have t2: "model_calls ?tr \<le> Suc n"
          using tr(2) mc0 by (simp add: model_calls_def)
        have t3: "model_calls ?tr = Suc n \<and>
                  (0 < Suc n \<longrightarrow> is_tool_invoke (last ?tr) \<and> is_tool_message (last (messages s')))"
          if h: "oc = Normal \<and> \<not> list_ex is_printed ?tr"
        proof -
          from h have np: "\<not> list_ex is_printed trr" by simp
          with trn h have mn: "model_calls trr = n"
            and ih: "0 < n \<longrightarrow> is_tool_invoke (last trr) \<and> is_tool_message (last (messages s'))"
            by simp_all
          have c1: "model_calls ?tr = Suc n" using mn mc0 by (simp add: model_calls_def)
          show ?thesis
          proof (cases n)
            case 0
            with r have e: "s' = s2" by simp
            with tr(1) have "trr = []" by simp
            moreover have "is_tool_invoke (last trd)" using ne(1) td(2) by (rule last_list_all)
            moreover have "is_tool_message (last new)" using ne(2) nw(4) by (rule last_list_all)
            ultimately show ?thesis using c1 ne nw(2) e by simp
          next
            case (Suc m)
            with mn have "trr \<noteq> []" by (auto simp: model_calls_def)
            with ih Suc c1 show ?thesis by simp
          qed
        qed
        show ?thesis
        proof (intro exI[of _ ?tr] conjI)
          show "trace s' = trace s @ ?tr" by (rule t1)
          show "model_calls ?tr \<le> Suc n" by (rule t2)
          show "oc = Normal \<and> \<not> list_ex is_printed ?tr \<longrightarrow>
                  model_calls ?tr = Suc n \<and>
                  (0 < Suc n \<longrightarrow> is_tool_invoke (last ?tr) \<and> is_tool_message (last (messages s')))"
            using t3 by (rule impI)
        qed
      qed
    qed
  qed
qed

text \<open>
  A model that asks for tools at every completion, with arguments whose decoding does
  not raise, and a peer that always answers.
\<close>

lemma dispatch_returns:
  assumes p: "\<forall>w n a. \<exists>res w'. call_tool env w n a = (Inr res, w')"
  shows "\<forall>t\<in>set tcs. \<exists>args. parse_arguments (loads env) (function_arguments t) = Inr args \<Longrightarrow>
         \<exists>s'. dispatch env tcs s = (Normal, s')"
proof (induction tcs arbitrary: s)
  case Nil
  show ?case by simp
next
  case (Cons tc tcs)
  from Cons.prems obtain args where
    a: "parse_arguments (loads env) (function_arguments tc) = Inr args"
    by auto
  from p obtain res w' where
    "call_tool env (world s) (function_name tc) args = (Inr res, w')"
    by blast
  from dispatch_result[OF a this, of tcs] Cons.IH Cons.prems show ?case
    by (simp del: dispatch.simps)
qed

lemma rounds_insisting:
  assumes m: "\<forall>w ms. \<exists>msg w' tc tcs.
                completions_create env w ms tools = (Inr msg, w') \<and>
                msg_tool_calls msg = Some (tc # tcs) \<and>
                (\<forall>t\<in>set (tc # tcs).
                   \<exists>args. parse_arguments (loads env) (function_arguments t) = Inr args)"
    and p: "\<forall>w n a. \<exists>res w'. call_tool env w n a = (Inr res, w')"
  shows "\<exists>s' tr. rounds env tools n s = (Normal, s') \<and> trace s' = trace s @ tr \<and>
                 \<not> list_ex is_printed tr"
proof (induction n arbitrary: s)
  case 0
  show ?case by simp
next
  case (Suc n)
  from m obtain msg w' tc tcs where
    c: "completions_create env (world s) (messages s) tools = (Inr msg, w')" and
    t: "msg_tool_calls msg = Some (tc # tcs)" and
    a: "\<forall>t\<in>set (tc # tcs).
          \<exists>args. parse_arguments (loads env) (function_arguments t) = Inr args"
    by blast
  define s1 where "s1 = s\<lparr>world := w', trace := trace s @ [ModelCall],
           messages := messages s @ [Assistant (content_or_empty msg) (tc # tcs)]\<rparr>"
  from dispatch_returns[OF p a, of s1] obtain s2 where
    d: "dispatch env (tc # tcs) s1 = (Normal, s2)" by (rule exE)
  from dispatch_trace[OF d] obtain trd where
    td: "trace s2 = trace s1 @ trd" "list_all is_tool_invoke trd" by blast
  from Suc.IH[of s2] obtain s' trr where
    r: "rounds env tools n s2 = (Normal, s')" "trace s' = trace s2 @ trr"
       "\<not> list_ex is_printed trr" by blast
  from rounds_tools[OF c t, of n] d r(1)
  have "rounds env tools (Suc n) s = (Normal, s')"
    by (simp add: s1_def del: rounds.simps dispatch.simps)
  moreover have "trace s' = trace s @ (ModelCall # trd @ trr)"
    using r(2) td(1) by (simp add: s1_def)
  moreover have "\<not> list_ex is_printed (ModelCall # trd @ trr)"
    using r(3) printed_tool_invokes[OF td(2)] by simp
  ultimately show ?case by blast
qed

lemma run_turn_insisting:
  assumes m: "\<forall>w ms. \<exists>msg w' tc tcs.
                completions_create env w ms tools = (Inr msg, w') \<and>
                msg_tool_calls msg = Some (tc # tcs) \<and>
                (\<forall>t\<in>set (tc # tcs).
                   \<exists>args. parse_arguments (loads env) (function_arguments t) = Inr args)"
    and p: "\<forall>w n a. \<exists>res w'. call_tool env w n a = (Inr res, w')"
  shows "\<exists>s' tr new. run_turn env tools user s = (Normal, s') \<and>
           trace s' = trace s @ tr \<and> \<not> list_ex is_printed tr \<and> model_calls tr = 5 \<and>
           is_tool_invoke (last tr) \<and>
           messages s' = messages s @ User user # new \<and> pending [] new = Some [] \<and>
           is_tool_message (last (messages s'))"
proof -
  let ?s = "s\<lparr>messages := messages s @ [User user]\<rparr>"
  from rounds_insisting[OF m p, of 5 ?s] obtain s' tr where
    r: "rounds env tools 5 ?s = (Normal, s')" and t: "trace s' = trace ?s @ tr"
    and np: "\<not> list_ex is_printed tr" by blast
  from rounds_trace[OF r] obtain tr' where
    tr0: "trace s' = trace ?s @ tr' \<and> model_calls tr' \<le> 5 \<and>
      (Normal = Normal \<and> \<not> list_ex is_printed tr' \<longrightarrow>
       model_calls tr' = 5 \<and>
       (0 < (5::nat) \<longrightarrow> is_tool_invoke (last tr') \<and> is_tool_message (last (messages s'))))"
    by (rule exE)
  with t have e: "tr' = tr" by simp
  from rounds_pending[OF r] obtain new where
    nw0: "messages s' = messages ?s @ new \<and> (\<exists>q. pending [] new = Some q) \<and>
          (Normal = Normal \<longrightarrow> pending [] new = Some [])"
    by (rule exE)
  show ?thesis
    by (intro exI[of _ s'] exI[of _ tr] exI[of _ new])
       (use r t np tr0 e nw0 in \<open>simp add: run_turn_def\<close>)
qed

section \<open>What can leave a turn, and how a session ends\<close>

lemma dispatch_raised_kind:
  "dispatch env tcs s = (Raised e, s') \<Longrightarrow>
     (\<exists>x. e = ArgumentsError x) \<or> (\<exists>x. e = InvocationError x)"
proof (induction tcs arbitrary: s)
  case Nil
  then show ?case by simp
next
  case (Cons tc tcs)
  show ?case
  proof (cases "parse_arguments (loads env) (function_arguments tc)")
    case (Inl x)
    from dispatch_arguments_raise[OF Inl, of tcs s] Cons.prems
    show ?thesis by (simp del: dispatch.simps)
  next
    case (Inr args)
    obtain r w where cw: "call_tool env (world s) (function_name tc) args = (r, w)"
      by (cases "call_tool env (world s) (function_name tc) args")
    show ?thesis
    proof (cases r)
      case (Inl x)
      from dispatch_raise[OF Inr cw[unfolded Inl], of tcs] Cons.prems
      show ?thesis by (simp del: dispatch.simps)
    next
      case res: (Inr res)
      from dispatch_result[OF Inr cw[unfolded res], of tcs] Cons.prems
      obtain s1 where "dispatch env tcs s1 = (Raised e, s')"
        by (simp del: dispatch.simps)
      then show ?thesis by (rule Cons.IH)
    qed
  qed
qed

lemma rounds_raised_kind:
  "rounds env tools n s = (Raised e, s') \<Longrightarrow>
     (\<exists>x. e = CompletionError x) \<or> (\<exists>x. e = ArgumentsError x) \<or>
     (\<exists>x. e = InvocationError x)"
proof (induction n arbitrary: s)
  case 0
  then show ?case by simp
next
  case (Suc n)
  obtain r w where cc: "completions_create env (world s) (messages s) tools = (r, w)"
    by (cases "completions_create env (world s) (messages s) tools")
  show ?case
  proof (cases r)
    case (Inl x)
    from rounds_raise[OF cc[unfolded Inl], of n] Suc.prems
    show ?thesis by (simp del: rounds.simps)
  next
    case (Inr msg)
    show ?thesis
    proof (cases "msg_tool_calls msg = None \<or> msg_tool_calls msg = Some []")
      case True
      from rounds_final[OF cc[unfolded Inr] True, of n] Suc.prems
      show ?thesis by (simp del: rounds.simps)
    next
      case False
      then obtain tc tcs' where tcs: "msg_tool_calls msg = Some (tc # tcs')"
        by (cases "msg_tool_calls msg"; cases "the (msg_tool_calls msg)") auto
      define s1 where "s1 = s\<lparr>world := w, trace := trace s @ [ModelCall],
           messages := messages s @ [Assistant (content_or_empty msg) (tc # tcs')]\<rparr>"
      obtain od s2 where d: "dispatch env (tc # tcs') s1 = (od, s2)"
        by (cases "dispatch env (tc # tcs') s1")
      from rounds_tools[OF cc[unfolded Inr] tcs, of n] d Suc.prems
      have step: "(case od of Raised e \<Rightarrow> (Raised e, s2) | Normal \<Rightarrow> rounds env tools n s2)
                    = (Raised e, s')"
        by (cases od) (simp_all add: s1_def del: rounds.simps dispatch.simps)
      show ?thesis
      proof (cases od)
        case Normal
        with step have "rounds env tools n s2 = (Raised e, s')" by (simp del: rounds.simps)
        then show ?thesis by (rule Suc.IH)
      next
        case (Raised e')
        with step have "e' = e" by simp
        with d Raised dispatch_raised_kind[of env "tc # tcs'" s1 e s2]
        show ?thesis by (auto simp del: dispatch.simps)
      qed
    qed
  qed
qed

lemma session_quit_after:
  "session env tools pre s = (Raised EOFError, s') \<Longrightarrow>
   lower (strip line) = ''quit'' \<or> lower (strip line) = ''exit'' \<Longrightarrow>
   session env tools (pre @ line # rest) s = (Normal, s')"
proof (induction pre arbitrary: s)
  case Nil
  then show ?case by (simp add: Let_def)
next
  case (Cons l ls)
  show ?case
  proof (cases "lower (strip l) = ''quit'' \<or> lower (strip l) = ''exit''")
    case True
    with Cons.prems(1) show ?thesis by (simp add: Let_def)
  next
    case False
    obtain oc s1 where t: "run_turn env tools (strip l) s = (oc, s1)"
      by (cases "run_turn env tools (strip l) s")
    show ?thesis
    proof (cases oc)
      case Normal
      with Cons.prems(1) False t have "session env tools ls s1 = (Raised EOFError, s')"
        by (simp add: Let_def)
      from Cons.IH[OF this Cons.prems(2)] False t Normal show ?thesis
        by (simp add: Let_def)
    next
      case (Raised e)
      with Cons.prems(1) False t have "e = EOFError" by (simp add: Let_def)
      with t Raised rounds_raised_kind[of env tools 5 _ EOFError s1]
      show ?thesis by (auto simp: run_turn_def)
    qed
  qed
qed

section \<open>Concrete runs\<close>

lemma done_run:
  \<open>run_turn (scripted x_then_done (Inr (text_result ''ok''))) [] ''hi'' start =
     (Normal,
      \<lparr>world = 2,
       messages = [System system_prompt, User ''hi'',
                   Assistant [] [ToolCall ''call_1'' ''function'' ''X'' (Some ''{"a":1}'')],
                   Tool ''call_1'' ''X'' ''ok''],
       trace = [ModelCall, ToolInvoke ''X'' (JObject [(str ''a'', JInt 1)]), ModelCall,
                Printed (newline @ ''done'' @ newline)]\<rparr>)\<close>
  by (simp add: run_simps)

lemma insisting_run:
  "run_turn (scripted always_x (Inr (text_result ''ok''))) [] ''hi'' start =
     (Normal,
      \<lparr>world = 5,
       messages = [System system_prompt, User ''hi'',
                   Assistant [] [ToolCall ''call_1'' ''function'' ''X'' (Some ''{}'')],
                   Tool ''call_1'' ''X'' ''ok'',
                   Assistant [] [ToolCall ''call_2'' ''function'' ''X'' (Some ''{}'')],
                   Tool ''call_2'' ''X'' ''ok'',
                   Assistant [] [ToolCall ''call_3'' ''function'' ''X'' (Some ''{}'')],
                   Tool ''call_3'' ''X'' ''ok'',
                   Assistant [] [ToolCall ''call_4'' ''function'' ''X'' (Some ''{}'')],
                   Tool ''call_4'' ''X'' ''ok'',
                   Assistant [] [ToolCall ''call_5'' ''function'' ''X'' (Some ''{}'')],
                   Tool ''call_5'' ''X'' ''ok''],
       trace = [ModelCall, ToolInvoke ''X'' (JObject []),
                ModelCall, ToolInvoke ''X'' (JObject []),
                ModelCall, ToolInvoke ''X'' (JObject []),
                ModelCall, ToolInvoke ''X'' (JObject []),
                ModelCall, ToolInvoke ''X'' (JObject [])]\<rparr>)"
  by (simp add: run_simps)

lemma broken_peer_run:
  "run_turn (scripted always_x (Inl ''connection closed'')) [] ''hi'' start =
     (Raised (InvocationError ''connection closed''),
      \<lparr>world = 1,
       messages = [System system_prompt, User ''hi'',
                   Assistant [] [ToolCall ''call_1'' ''function'' ''X'' (Some ''{}'')]],
       trace = [ModelCall, ToolInvoke ''X'' (JObject [])]\<rparr>)"
  by (simp add: run_simps)

lemma picky_run:
  "run_turn picky [] ''hi'' start =
     (Raised (InvocationError ''unknown tool''),
      \<lparr>world = 1,
       messages = [System system_prompt, User ''hi'',
                   Assistant [] [ToolCall ''a'' ''function'' ''X'' (Some ''{}''),
                                 ToolCall ''b'' ''function'' ''Y'' (Some ''{}''),
                                 ToolCall ''c'' ''function'' ''X'' (Some ''{}'')],
                   Tool ''a'' ''X'' ''ok''],
       trace = [ModelCall, ToolInvoke ''X'' (JObject []), ToolInvoke ''Y'' (JObject [])]\<rparr>)"
  by (simp add: run_simps)

lemma tiring_run:
  "run_turn tiring [] ''hi'' start =
     (Raised (InvocationError ''timeout''),
      \<lparr>world = 5,
       messages = [System system_prompt, User ''hi'',
                   Assistant [] [ToolCall ''call_1'' ''function'' ''X'' (Some ''{}'')],
                   Tool ''call_1'' ''X'' ''ok'',
                   Assistant [] [ToolCall ''call_2'' ''function'' ''X'' (Some ''{}'')],
                   Tool ''call_2'' ''X'' ''ok'',
                   Assistant [] [ToolCall ''call_3'' ''function'' ''X'' (Some ''{}'')],
                   Tool ''call_3'' ''X'' ''ok'',
                   Assistant [] [ToolCall ''call_4'' ''function'' ''X'' (Some ''{}'')],
                   Tool ''call_4'' ''X'' ''ok'',
                   Assistant [] [ToolCall ''call_5'' ''function'' ''X'' (Some ''{}'')]],
       trace = [ModelCall, ToolInvoke ''X'' (JObject []),
                ModelCall, ToolInvoke ''X'' (JObject []),
                ModelCall, ToolInvoke ''X'' (JObject []),
                ModelCall, ToolInvoke ''X'' (JObject []),
                ModelCall, ToolInvoke ''X'' (JObject [])]\<rparr>)"
  by (simp add: run_simps)

section \<open>One round, and the last of five\<close>

text \<open>
  A round in which the model requests tools: the assistant message with the requests is
  appended, then \<open>dispatch\<close> runs on the requests as the model gave them. The loop goes
  on with the next iteration when \<open>dispatch\<close> returns, and ends with its exception
  otherwise.
\<close>

lemma round_shape:
  assumes c: "completions_create env (world s) (messages s) tools = (Inr msg, w)"
    and t: "msg_tool_calls msg = Some (tc # tcs)"
  shows "\<exists>od s2 rs tr.
           dispatch env (tc # tcs)
             (s\<lparr>world := w, trace := trace s @ [ModelCall],
                messages := messages s @ [Assistant (content_or_empty msg) (tc # tcs)]\<rparr>)
             = (od, s2) \<and>
           messages s2 =
             messages s @ Assistant (content_or_empty msg) (tc # tcs) # answers (tc # tcs) rs \<and>
           length rs \<le> Suc (length tcs) \<and>
           trace s2 = trace s @ ModelCall # tr \<and> list_all is_tool_invoke tr \<and>
           (od = Normal \<longrightarrow>
              length rs = Suc (length tcs) \<and> length tr = Suc (length tcs) \<and>
              rounds env tools (Suc n) s = rounds env tools n s2) \<and>
           (\<forall>e. od = Raised e \<longrightarrow>
              length rs < Suc (length tcs) \<and> rounds env tools (Suc n) s = (Raised e, s2))"
proof -
  define s1 where "s1 = s\<lparr>world := w, trace := trace s @ [ModelCall],
       messages := messages s @ [Assistant (content_or_empty msg) (tc # tcs)]\<rparr>"
  obtain od s2 where d: "dispatch env (tc # tcs) s1 = (od, s2)"
    by (cases "dispatch env (tc # tcs) s1")
  from dispatch_shape[OF d] obtain rs tr where
    sh: "messages s2 = messages s1 @ answers (tc # tcs) rs \<and> length rs \<le> length (tc # tcs) \<and>
         (od = Normal \<longrightarrow> length rs = length (tc # tcs)) \<and>
         (od \<noteq> Normal \<longrightarrow> length rs < length (tc # tcs)) \<and>
         trace s2 = trace s1 @ tr \<and> list_all is_tool_invoke tr \<and>
         (od = Normal \<longrightarrow> length tr = length (tc # tcs))"
    by (elim exE)
  from rounds_tools[OF c t, of n] d
  have r: "rounds env tools (Suc n) s =
             (case od of Raised e \<Rightarrow> (Raised e, s2) | Normal \<Rightarrow> rounds env tools n s2)"
    by (cases od) (simp_all add: s1_def del: rounds.simps dispatch.simps)
  have m: "messages s1 = messages s @ [Assistant (content_or_empty msg) (tc # tcs)]"
    and tr1: "trace s1 = trace s @ [ModelCall]"
    by (simp_all add: s1_def)
  show ?thesis
    unfolding s1_def[symmetric]
    by (intro exI[of _ od] exI[of _ s2] exI[of _ rs] exI[of _ tr])
       (use d sh r m tr1 in \<open>simp del: rounds.simps dispatch.simps\<close>)
qed

text \<open>
  A run of the loop that requests as many completions as it has iterations: all the
  iterations but the last requested tools and dispatched them without an exception, and
  the last iteration, started in the state they left, gives the outcome of the loop.
\<close>

lemma rounds_last:
  "rounds env tools (Suc n) s = (oc, s') \<Longrightarrow> trace s' = trace s @ tr \<Longrightarrow>
   model_calls tr = Suc n \<Longrightarrow>
     \<exists>s5 tr5. rounds env tools n s = (Normal, s5) \<and> trace s5 = trace s @ tr5 \<and>
              model_calls tr5 = n \<and> \<not> list_ex is_printed tr5 \<and>
              rounds env tools (Suc 0) s5 = (oc, s')"
proof (induction n arbitrary: s tr)
  case 0
  then show ?case
    by (intro exI[of _ s] exI[of _ "[]"]) (simp add: model_calls_def del: rounds.simps(2))
next
  case (Suc n)
  obtain r w where cc: "completions_create env (world s) (messages s) tools = (r, w)"
    by (cases "completions_create env (world s) (messages s) tools")
  show ?case
  proof (cases r)
    case (Inl e)
    from rounds_raise[OF cc[unfolded Inl], of "Suc n"] Suc.prems(1)
    have "trace s' = trace s @ [ModelCall]" by (auto simp del: rounds.simps)
    with Suc.prems(2) have "tr = [ModelCall]" by simp
    with Suc.prems(3) show ?thesis by (simp add: model_calls_def)
  next
    case (Inr msg)
    show ?thesis
    proof (cases "msg_tool_calls msg = None \<or> msg_tool_calls msg = Some []")
      case True
      from rounds_final[OF cc[unfolded Inr] True, of "Suc n"] Suc.prems(1)
      have "trace s' = trace s @ [ModelCall,
              Printed (newline @ strip (content_or_empty msg) @ newline)]"
        by (auto simp del: rounds.simps)
      with Suc.prems(2) have
        "tr = [ModelCall, Printed (newline @ strip (content_or_empty msg) @ newline)]"
        by simp
      with Suc.prems(3) show ?thesis by (simp add: model_calls_def)
    next
      case False
      then obtain tc tcs where tcs: "msg_tool_calls msg = Some (tc # tcs)"
        by (cases "msg_tool_calls msg"; cases "the (msg_tool_calls msg)") auto
      define s1 where "s1 = s\<lparr>world := w, trace := trace s @ [ModelCall],
           messages := messages s @ [Assistant (content_or_empty msg) (tc # tcs)]\<rparr>"
      obtain od s2 where d: "dispatch env (tc # tcs) s1 = (od, s2)"
        by (cases "dispatch env (tc # tcs) s1")
      from rounds_tools[OF cc[unfolded Inr] tcs, of "Suc n"] d
      have stepA: "rounds env tools (Suc (Suc n)) s =
                     (case od of Raised e \<Rightarrow> (Raised e, s2)
                      | Normal \<Rightarrow> rounds env tools (Suc n) s2)"
        by (cases od) (simp_all add: s1_def del: rounds.simps dispatch.simps)
      from rounds_tools[OF cc[unfolded Inr] tcs, of n] d
      have stepB: "rounds env tools (Suc n) s =
                     (case od of Raised e \<Rightarrow> (Raised e, s2)
                      | Normal \<Rightarrow> rounds env tools n s2)"
        by (cases od) (simp_all add: s1_def del: rounds.simps dispatch.simps)
      from dispatch_shape[OF d] obtain trd where
        td: "trace s2 = trace s1 @ trd" "list_all is_tool_invoke trd"
        by (elim exE conjE)
      have ts1: "trace s1 = trace s @ [ModelCall]" by (simp add: s1_def)
      have mc0: "model_calls trd = 0" using td(2) by (rule model_calls_tool_invokes)
      have np0: "\<not> list_ex is_printed trd" using td(2) by (rule printed_tool_invokes)
      show ?thesis
      proof (cases od)
        case (Raised e)
        with stepA Suc.prems(1) have "s' = s2" by (simp del: rounds.simps)
        with td(1) ts1 Suc.prems(2) have "tr = ModelCall # trd" by simp
        with mc0 Suc.prems(3) show ?thesis by (simp add: model_calls_def)
      next
        case Normal
        with stepA Suc.prems(1) have r: "rounds env tools (Suc n) s2 = (oc, s')"
          by (simp del: rounds.simps)
        from rounds_trace[OF r] obtain trr where trr: "trace s' = trace s2 @ trr"
          by (elim exE conjE)
        with td(1) ts1 Suc.prems(2) have e: "tr = ModelCall # trd @ trr" by simp
        with mc0 Suc.prems(3) have "model_calls trr = Suc n"
          by (simp add: model_calls_def)
        from Suc.IH[OF r trr this] obtain s5 tr5 where
          ih: "rounds env tools n s2 = (Normal, s5)" "trace s5 = trace s2 @ tr5"
              "model_calls tr5 = n" "\<not> list_ex is_printed tr5"
              "rounds env tools (Suc 0) s5 = (oc, s')"
          by (elim exE conjE)
        from stepB Normal ih(1) have a: "rounds env tools (Suc n) s = (Normal, s5)"
          by (simp del: rounds.simps)
        have b: "trace s5 = trace s @ (ModelCall # trd @ tr5)"
          using ih(2) td(1) ts1 by simp
        have c: "model_calls (ModelCall # trd @ tr5) = Suc n"
          using ih(3) mc0 by (simp add: model_calls_def)
        have p: "\<not> list_ex is_printed (ModelCall # trd @ tr5)"
          using ih(4) np0 by simp
        from a b c p ih(5) show ?thesis
          by (intro exI[of _ s5] exI[of _ "ModelCall # trd @ tr5"])
             (simp del: rounds.simps)
      qed
    qed
  qed
qed

section \<open>Texts for which the decoder raises another exception\<close>







lemma four_rounds_run:
  "rounds (scripted always_x (Inr (text_result ''ok''))) [] (Suc (Suc (Suc (Suc 0))))
     (start\<lparr>messages := messages start @ [User ''hi'']\<rparr>) = (Normal, after_four)"
  "rounds tiring [] (Suc (Suc (Suc (Suc 0))))
     (start\<lparr>messages := messages start @ [User ''hi'']\<rparr>) = (Normal, after_four)"
  by (simp_all add: run_simps after_four_def)

section \<open>The claims about the calendar client\<close>

text \<open>
  C1, as the code has it. In a round in which the model requests tools, the assistant
  message that carries the requests is appended as the model gave them, and after it
  the tool messages \<open>answers (tc # tcs) rs\<close>: one for each of the first requests, in the
  order of the requests, with the id and the name of its request. When the loop over
  the requests returns, each request has its tool message and the turn goes on with
  the next round in that state. When decoding the arguments of a request or invoking
  its tool raises an exception, the requests before it have their tool messages, that
  request and those after it have none, and the turn ends with the exception. For the
  turn as a whole: what it appends after the user's line passes the walk \<open>pending\<close>,
  so every tool message carries the id of a request of the assistant message of its
  round, and no request is left unanswered when the turn returns normally.
\<close>

theorem tool_messages_answer_requests:
  "(completions_create env (world s) (messages s) tools = (Inr msg, w) \<and>
    msg_tool_calls msg = Some (tc # tcs) \<longrightarrow>
      (\<exists>od s2 rs.
         dispatch env (tc # tcs)
           (s\<lparr>world := w, trace := trace s @ [ModelCall],
              messages := messages s @ [Assistant (content_or_empty msg) (tc # tcs)]\<rparr>)
           = (od, s2) \<and>
         messages s2 =
           messages s @ Assistant (content_or_empty msg) (tc # tcs) # answers (tc # tcs) rs \<and>
         length rs \<le> Suc (length tcs) \<and>
         (od = Normal \<longrightarrow>
            length rs = Suc (length tcs) \<and>
            rounds env tools (Suc n) s = rounds env tools n s2) \<and>
         (\<forall>e. od = Raised e \<longrightarrow>
            length rs < Suc (length tcs) \<and>
            rounds env tools (Suc n) s = (Raised e, s2)))) \<and>
   (run_turn env0 tools0 user s0 = (oc, s') \<longrightarrow>
      (\<exists>new. messages s' = messages s0 @ User user # new \<and>
             pending [] new \<noteq> None \<and>
             (oc = Normal \<longrightarrow> pending [] new = Some [])))"
proof (intro conjI impI)
  assume "completions_create env (world s) (messages s) tools = (Inr msg, w) \<and>
          msg_tool_calls msg = Some (tc # tcs)"
  then have c: "completions_create env (world s) (messages s) tools = (Inr msg, w)"
    and t: "msg_tool_calls msg = Some (tc # tcs)"
    by (rule conjunct1, rule conjunct2)
  from round_shape[OF c t, of n] obtain od s2 rs tr where
    sh: "dispatch env (tc # tcs)
           (s\<lparr>world := w, trace := trace s @ [ModelCall],
              messages := messages s @ [Assistant (content_or_empty msg) (tc # tcs)]\<rparr>)
           = (od, s2) \<and>
         messages s2 =
           messages s @ Assistant (content_or_empty msg) (tc # tcs) # answers (tc # tcs) rs \<and>
         length rs \<le> Suc (length tcs) \<and>
         trace s2 = trace s @ ModelCall # tr \<and> list_all is_tool_invoke tr \<and>
         (od = Normal \<longrightarrow>
            length rs = Suc (length tcs) \<and> length tr = Suc (length tcs) \<and>
            rounds env tools (Suc n) s = rounds env tools n s2) \<and>
         (\<forall>e. od = Raised e \<longrightarrow>
            length rs < Suc (length tcs) \<and> rounds env tools (Suc n) s = (Raised e, s2))"
    by (elim exE)
  show "\<exists>od s2 rs.
         dispatch env (tc # tcs)
           (s\<lparr>world := w, trace := trace s @ [ModelCall],
              messages := messages s @ [Assistant (content_or_empty msg) (tc # tcs)]\<rparr>)
           = (od, s2) \<and>
         messages s2 =
           messages s @ Assistant (content_or_empty msg) (tc # tcs) # answers (tc # tcs) rs \<and>
         length rs \<le> Suc (length tcs) \<and>
         (od = Normal \<longrightarrow>
            length rs = Suc (length tcs) \<and>
            rounds env tools (Suc n) s = rounds env tools n s2) \<and>
         (\<forall>e. od = Raised e \<longrightarrow>
            length rs < Suc (length tcs) \<and>
            rounds env tools (Suc n) s = (Raised e, s2))"
    by (intro exI[of _ od] exI[of _ s2] exI[of _ rs])
       (use sh in \<open>simp del: rounds.simps dispatch.simps\<close>)
next
  assume "run_turn env0 tools0 user s0 = (oc, s')"
  then have r: "rounds env0 tools0 5 (s0\<lparr>messages := messages s0 @ [User user]\<rparr>) = (oc, s')"
    by (simp add: run_turn_def)
  from rounds_pending[OF r] obtain new where
    nw: "messages s' = messages (s0\<lparr>messages := messages s0 @ [User user]\<rparr>) @ new \<and>
         (\<exists>q. pending [] new = Some q) \<and> (oc = Normal \<longrightarrow> pending [] new = Some [])"
    by (elim exE)
  show "\<exists>new. messages s' = messages s0 @ User user # new \<and>
             pending [] new \<noteq> None \<and>
             (oc = Normal \<longrightarrow> pending [] new = Some [])"
    by (intro exI[of _ new]) (use nw in auto)
qed

theorem tool_messages_answer_requests_witness:
  \<open>rounds (scripted x_then_done (Inr (text_result ''ok''))) [] (Suc 4)
     (start\<lparr>messages := messages start @ [User ''hi'']\<rparr>) =
   rounds (scripted x_then_done (Inr (text_result ''ok''))) [] 4
     \<lparr>world = 1,
      messages = [System system_prompt, User ''hi'',
                  Assistant [] [ToolCall ''call_1'' ''function'' ''X'' (Some ''{"a":1}'')],
                  Tool ''call_1'' ''X'' ''ok''],
      trace = [ModelCall, ToolInvoke ''X'' (JObject [(str ''a'', JInt 1)])]\<rparr> \<and>
   pending []
     [Assistant [] [ToolCall ''call_1'' ''function'' ''X'' (Some ''{"a":1}'')],
      Tool ''call_1'' ''X'' ''ok''] = Some [] \<and>
   rounds picky [] (Suc 4) (start\<lparr>messages := messages start @ [User ''hi'']\<rparr>) =
     (Raised (InvocationError ''unknown tool''),
      \<lparr>world = 1,
       messages = [System system_prompt, User ''hi'',
                   Assistant [] [ToolCall ''a'' ''function'' ''X'' (Some ''{}''),
                                 ToolCall ''b'' ''function'' ''Y'' (Some ''{}''),
                                 ToolCall ''c'' ''function'' ''X'' (Some ''{}'')],
                   Tool ''a'' ''X'' ''ok''],
       trace = [ModelCall, ToolInvoke ''X'' (JObject []), ToolInvoke ''Y'' (JObject [])]\<rparr>)\<close>
proof -
  let ?E = "scripted x_then_done (Inr (text_result ''ok''))"
  let ?s = "start\<lparr>messages := messages start @ [User ''hi'']\<rparr>"
  let ?tc = \<open>ToolCall ''call_1'' ''function'' ''X'' (Some ''{"a":1}'')\<close>
  let ?S1 = \<open>\<lparr>world = 1::nat,
      messages = [System system_prompt, User ''hi'', Assistant [] [?tc],
                  Tool ''call_1'' ''X'' ''ok''],
      trace = [ModelCall, ToolInvoke ''X'' (JObject [(str ''a'', JInt 1)])]\<rparr>\<close>
  let ?a = "ToolCall ''a'' ''function'' ''X'' (Some ''{}'')"
  let ?b = "ToolCall ''b'' ''function'' ''Y'' (Some ''{}'')"
  let ?c = "ToolCall ''c'' ''function'' ''X'' (Some ''{}'')"
  let ?S2 = "\<lparr>world = 1::nat,
       messages = [System system_prompt, User ''hi'', Assistant [] [?a, ?b, ?c],
                   Tool ''a'' ''X'' ''ok''],
       trace = [ModelCall, ToolInvoke ''X'' (JObject []), ToolInvoke ''Y'' (JObject [])]\<rparr>"
  obtain S where run: "run_turn ?E [] ''hi'' start = (Normal, S)"
    and ms: \<open>messages S = [System system_prompt, User ''hi'', Assistant [] [?tc],
                          Tool ''call_1'' ''X'' ''ok'']\<close>
    using done_run by simp
  have h1: "completions_create ?E (world ?s) (messages ?s) [] = (Inr (x_then_done 0), 1) \<and>
            msg_tool_calls (x_then_done 0) = Some (?tc # [])"
    by (simp add: run_simps)
  have d1: "dispatch ?E (?tc # [])
              (?s\<lparr>world := 1, trace := trace ?s @ [ModelCall],
                  messages := messages ?s @ [Assistant (content_or_empty (x_then_done 0))
                                              (?tc # [])]\<rparr>) = (Normal, ?S1)"
    by (simp add: run_simps)
  from tool_messages_answer_requests[where env = ?E and s = ?s and tools = "[]"
      and msg = "x_then_done 0" and w = 1 and tc = ?tc and tcs = "[]" and n = 4
      and ?env0.0 = ?E and ?tools0.0 = "[]" and user = "''hi''" and ?s0.0 = start
      and oc = Normal and s' = S]
  have t1: "completions_create ?E (world ?s) (messages ?s) [] = (Inr (x_then_done 0), 1) \<and>
            msg_tool_calls (x_then_done 0) = Some (?tc # []) \<longrightarrow>
      (\<exists>od s2 rs.
         dispatch ?E (?tc # [])
           (?s\<lparr>world := 1, trace := trace ?s @ [ModelCall],
              messages := messages ?s @ [Assistant (content_or_empty (x_then_done 0))
                                          (?tc # [])]\<rparr>) = (od, s2) \<and>
         messages s2 =
           messages ?s @ Assistant (content_or_empty (x_then_done 0)) (?tc # []) #
             answers (?tc # []) rs \<and>
         length rs \<le> Suc (length ([] :: tool_call list)) \<and>
         (od = Normal \<longrightarrow>
            length rs = Suc (length ([] :: tool_call list)) \<and>
            rounds ?E [] (Suc 4) ?s = rounds ?E [] 4 s2) \<and>
         (\<forall>e. od = Raised e \<longrightarrow>
            length rs < Suc (length ([] :: tool_call list)) \<and>
            rounds ?E [] (Suc 4) ?s = (Raised e, s2)))"
    and t2: "run_turn ?E [] ''hi'' start = (Normal, S) \<longrightarrow>
      (\<exists>new. messages S = messages start @ User ''hi'' # new \<and>
             pending [] new \<noteq> None \<and>
             (Normal = Normal \<longrightarrow> pending [] new = Some []))"
    by (rule conjunct1, rule conjunct2)
  from t1 h1 have "\<exists>od s2 rs.
         dispatch ?E (?tc # [])
           (?s\<lparr>world := 1, trace := trace ?s @ [ModelCall],
              messages := messages ?s @ [Assistant (content_or_empty (x_then_done 0))
                                          (?tc # [])]\<rparr>) = (od, s2) \<and>
         messages s2 =
           messages ?s @ Assistant (content_or_empty (x_then_done 0)) (?tc # []) #
             answers (?tc # []) rs \<and>
         length rs \<le> Suc (length ([] :: tool_call list)) \<and>
         (od = Normal \<longrightarrow>
            length rs = Suc (length ([] :: tool_call list)) \<and>
            rounds ?E [] (Suc 4) ?s = rounds ?E [] 4 s2) \<and>
         (\<forall>e. od = Raised e \<longrightarrow>
            length rs < Suc (length ([] :: tool_call list)) \<and>
            rounds ?E [] (Suc 4) ?s = (Raised e, s2))"
    by (rule mp)
  then obtain od s2 rs where
    b1: "dispatch ?E (?tc # [])
           (?s\<lparr>world := 1, trace := trace ?s @ [ModelCall],
              messages := messages ?s @ [Assistant (content_or_empty (x_then_done 0))
                                          (?tc # [])]\<rparr>) = (od, s2) \<and>
         messages s2 =
           messages ?s @ Assistant (content_or_empty (x_then_done 0)) (?tc # []) #
             answers (?tc # []) rs \<and>
         length rs \<le> Suc (length ([] :: tool_call list)) \<and>
         (od = Normal \<longrightarrow>
            length rs = Suc (length ([] :: tool_call list)) \<and>
            rounds ?E [] (Suc 4) ?s = rounds ?E [] 4 s2) \<and>
         (\<forall>e. od = Raised e \<longrightarrow>
            length rs < Suc (length ([] :: tool_call list)) \<and>
            rounds ?E [] (Suc 4) ?s = (Raised e, s2))"
    by (elim exE)
  from b1 d1 have e1: "od = Normal" "s2 = ?S1"
    by (simp_all del: rounds.simps dispatch.simps)
  from b1 e1 have c1: "rounds ?E [] (Suc 4) ?s = rounds ?E [] 4 ?S1"
    by (simp del: rounds.simps dispatch.simps)
  from t2 run have "\<exists>new. messages S = messages start @ User ''hi'' # new \<and>
             pending [] new \<noteq> None \<and>
             (Normal = Normal \<longrightarrow> pending [] new = Some [])"
    by (rule mp)
  then obtain new where
    b2: "messages S = messages start @ User ''hi'' # new \<and>
         pending [] new \<noteq> None \<and> (Normal = Normal \<longrightarrow> pending [] new = Some [])"
    by (elim exE)
  then have p: "pending [] new = Some []" by simp
  from b2 have "messages S = messages start @ User ''hi'' # new" by (rule conjunct1)
  with ms have "new = [Assistant [] [?tc], Tool ''call_1'' ''X'' ''ok'']"
    by (simp add: start_def)
  with p have c2: "pending [] [Assistant [] [?tc], Tool ''call_1'' ''X'' ''ok''] = Some []"
    by simp
  have h3: "completions_create picky (world ?s) (messages ?s) [] = (Inr (three_requests 0), 1) \<and>
            msg_tool_calls (three_requests 0) = Some (?a # [?b, ?c])"
    by (simp add: run_simps)
  have d3: "dispatch picky (?a # [?b, ?c])
              (?s\<lparr>world := 1, trace := trace ?s @ [ModelCall],
                  messages := messages ?s @ [Assistant (content_or_empty (three_requests 0))
                                              (?a # [?b, ?c])]\<rparr>)
              = (Raised (InvocationError ''unknown tool''), ?S2)"
    by (simp add: run_simps)
  from tool_messages_answer_requests[where env = picky and s = ?s and tools = "[]"
      and msg = "three_requests 0" and w = 1 and tc = ?a and tcs = "[?b, ?c]" and n = 4,
      THEN conjunct1] h3
  have "\<exists>od s2 rs.
         dispatch picky (?a # [?b, ?c])
           (?s\<lparr>world := 1, trace := trace ?s @ [ModelCall],
              messages := messages ?s @ [Assistant (content_or_empty (three_requests 0))
                                          (?a # [?b, ?c])]\<rparr>) = (od, s2) \<and>
         messages s2 =
           messages ?s @ Assistant (content_or_empty (three_requests 0)) (?a # [?b, ?c]) #
             answers (?a # [?b, ?c]) rs \<and>
         length rs \<le> Suc (length [?b, ?c]) \<and>
         (od = Normal \<longrightarrow>
            length rs = Suc (length [?b, ?c]) \<and>
            rounds picky [] (Suc 4) ?s = rounds picky [] 4 s2) \<and>
         (\<forall>e. od = Raised e \<longrightarrow>
            length rs < Suc (length [?b, ?c]) \<and>
            rounds picky [] (Suc 4) ?s = (Raised e, s2))"
    by (rule mp)
  then obtain od' s3 rs' where
    b3: "dispatch picky (?a # [?b, ?c])
           (?s\<lparr>world := 1, trace := trace ?s @ [ModelCall],
              messages := messages ?s @ [Assistant (content_or_empty (three_requests 0))
                                          (?a # [?b, ?c])]\<rparr>) = (od', s3) \<and>
         messages s3 =
           messages ?s @ Assistant (content_or_empty (three_requests 0)) (?a # [?b, ?c]) #
             answers (?a # [?b, ?c]) rs' \<and>
         length rs' \<le> Suc (length [?b, ?c]) \<and>
         (od' = Normal \<longrightarrow>
            length rs' = Suc (length [?b, ?c]) \<and>
            rounds picky [] (Suc 4) ?s = rounds picky [] 4 s3) \<and>
         (\<forall>e. od' = Raised e \<longrightarrow>
            length rs' < Suc (length [?b, ?c]) \<and>
            rounds picky [] (Suc 4) ?s = (Raised e, s3))"
    by (elim exE)
  from b3 d3 have e3: "od' = Raised (InvocationError ''unknown tool'')" "s3 = ?S2"
    by (simp_all del: rounds.simps dispatch.simps)
  from b3 e3 have c3: "rounds picky [] (Suc 4) ?s =
                         (Raised (InvocationError ''unknown tool''), ?S2)"
    by (simp del: rounds.simps dispatch.simps)
  from c1 c2 c3 show ?thesis by (simp del: rounds.simps)
qed

text \<open>
  The model requests \<open>X\<close>, \<open>Y\<close> and \<open>X\<close> with the ids \<open>a\<close>, \<open>b\<close> and \<open>c\<close> in one
  completion, and the peer raises for \<open>Y\<close>: the turn ends with the exception, the
  round has appended one tool message for three requests, and \<open>b\<close> and \<open>c\<close> are left
  without one.
\<close>

theorem tool_messages_counterexample:
  "completions_create picky (world start) (messages start @ [User ''hi'']) [] =
     (Inr (three_requests 0), 1) \<and>
   msg_tool_calls (three_requests 0) =
     Some [ToolCall ''a'' ''function'' ''X'' (Some ''{}''),
           ToolCall ''b'' ''function'' ''Y'' (Some ''{}''),
           ToolCall ''c'' ''function'' ''X'' (Some ''{}'')] \<and>
   fst (run_turn picky [] ''hi'' start) = Raised (InvocationError ''unknown tool'') \<and>
   filter is_tool_message (messages (snd (run_turn picky [] ''hi'' start))) =
     [Tool ''a'' ''X'' ''ok''] \<and>
   pending [] (drop 2 (messages (snd (run_turn picky [] ''hi'' start)))) = Some [''b'', ''c'']"
  by (simp add: picky_run)
     (simp add: picky_def scripted_def three_requests_def start_def)

text \<open>
  C2, as the code has it. A user turn requests at most five completions, however it
  ends. A turn that requests five has run four rounds that dispatched tools and
  returned, and ends as its fifth round ends. When the fifth completion requests
  tools, the assistant message is appended and the requests are dispatched like those
  of any other round; nothing else is requested or printed after that. If none of the
  requests raises, every one of them has its tool message, and the turn returns
  normally. If decoding the arguments or invoking the tool raises for one of them, the
  requests before it have their tool messages, the others have none, and the turn ends
  with the exception. So a turn that returns normally without having printed an answer
  has requested exactly five completions, the last thing it did was to invoke a tool,
  and its transcript ends with a tool message and leaves no request unanswered. With a
  model that requests tools at every completion, with arguments whose decoding does
  not raise, and a peer that answers every invocation, this is how the turn ends. After
  a turn that returns normally the session goes on with the next line; an exception
  that ends a turn ends the session.
\<close>

theorem five_completions_per_turn:
  "(run_turn env tools user s = (oc, s') \<longrightarrow>
      (\<exists>tr. trace s' = trace s @ tr \<and> model_calls tr \<le> 5 \<and>
            (oc = Normal \<and> \<not> list_ex is_printed tr \<longrightarrow>
               model_calls tr = 5 \<and> is_tool_invoke (last tr) \<and>
               is_tool_message (last (messages s')) \<and>
               (\<exists>new. messages s' = messages s @ User user # new \<and> pending [] new = Some [])) \<and>
            (model_calls tr = 5 \<longrightarrow>
               (\<exists>s5. rounds env tools 4 (s\<lparr>messages := messages s @ [User user]\<rparr>)
                       = (Normal, s5) \<and>
                     rounds env tools (Suc 0) s5 = (oc, s'))))) \<and>
   (completions_create env (world s5) (messages s5) tools = (Inr msg, w) \<and>
    msg_tool_calls msg = Some (tc # tcs) \<longrightarrow>
      (\<exists>od s6 rs tr.
         dispatch env (tc # tcs)
           (s5\<lparr>world := w, trace := trace s5 @ [ModelCall],
               messages := messages s5 @ [Assistant (content_or_empty msg) (tc # tcs)]\<rparr>)
           = (od, s6) \<and>
         rounds env tools (Suc 0) s5 = (od, s6) \<and>
         messages s6 =
           messages s5 @ Assistant (content_or_empty msg) (tc # tcs) # answers (tc # tcs) rs \<and>
         trace s6 = trace s5 @ ModelCall # tr \<and> list_all is_tool_invoke tr \<and>
         (od = Normal \<longrightarrow> length rs = Suc (length tcs) \<and> length tr = Suc (length tcs)) \<and>
         (od \<noteq> Normal \<longrightarrow> length rs < Suc (length tcs)))) \<and>
   ((\<forall>w ms. \<exists>msg w' tc tcs.
        completions_create env w ms tools = (Inr msg, w') \<and>
        msg_tool_calls msg = Some (tc # tcs) \<and>
        (\<forall>t\<in>set (tc # tcs).
           \<exists>args. parse_arguments (loads env) (function_arguments t) = Inr args)) \<and>
    (\<forall>w n a. \<exists>res w'. call_tool env w n a = (Inr res, w')) \<longrightarrow>
      (\<exists>s' tr new. run_turn env tools user s = (Normal, s') \<and>
         trace s' = trace s @ tr \<and> \<not> list_ex is_printed tr \<and> model_calls tr = 5 \<and>
         is_tool_invoke (last tr) \<and>
         messages s' = messages s @ User user # new \<and> pending [] new = Some [] \<and>
         is_tool_message (last (messages s')))) \<and>
   (\<not> (lower (strip line) = ''quit'' \<or> lower (strip line) = ''exit'') \<and>
    run_turn env tools (strip line) s1 = (Normal, s2) \<longrightarrow>
      session env tools (line # rest) s1 = session env tools rest s2) \<and>
   (\<not> (lower (strip line) = ''quit'' \<or> lower (strip line) = ''exit'') \<and>
    run_turn env tools (strip line) s3 = (Raised e, s4) \<longrightarrow>
      session env tools (line # rest) s3 = (Raised e, s4))"
proof (intro conjI impI)
  assume "(\<forall>w ms. \<exists>msg w' tc tcs.
        completions_create env w ms tools = (Inr msg, w') \<and>
        msg_tool_calls msg = Some (tc # tcs) \<and>
        (\<forall>t\<in>set (tc # tcs).
           \<exists>args. parse_arguments (loads env) (function_arguments t) = Inr args)) \<and>
    (\<forall>w n a. \<exists>res w'. call_tool env w n a = (Inr res, w'))"
  then have m: "\<forall>w ms. \<exists>msg w' tc tcs.
        completions_create env w ms tools = (Inr msg, w') \<and>
        msg_tool_calls msg = Some (tc # tcs) \<and>
        (\<forall>t\<in>set (tc # tcs).
           \<exists>args. parse_arguments (loads env) (function_arguments t) = Inr args)"
    and p: "\<forall>w n a. \<exists>res w'. call_tool env w n a = (Inr res, w')"
    by (rule conjunct1, rule conjunct2)
  show "\<exists>s' tr new. run_turn env tools user s = (Normal, s') \<and>
         trace s' = trace s @ tr \<and> \<not> list_ex is_printed tr \<and> model_calls tr = 5 \<and>
         is_tool_invoke (last tr) \<and>
         messages s' = messages s @ User user # new \<and> pending [] new = Some [] \<and>
         is_tool_message (last (messages s'))"
    using m p by (rule run_turn_insisting)
next
  assume run: "run_turn env tools user s = (oc, s')"
  let ?s = "s\<lparr>messages := messages s @ [User user]\<rparr>"
  from run have r: "rounds env tools 5 ?s = (oc, s')" by (simp add: run_turn_def)
  then have r4: "rounds env tools (Suc 4) ?s = (oc, s')" by (simp del: rounds.simps)
  from rounds_trace[OF r] obtain tr where
    tr0: "trace s' = trace ?s @ tr \<and> model_calls tr \<le> 5 \<and>
      (oc = Normal \<and> \<not> list_ex is_printed tr \<longrightarrow>
       model_calls tr = 5 \<and>
       (0 < (5::nat) \<longrightarrow> is_tool_invoke (last tr) \<and> is_tool_message (last (messages s'))))"
    by (rule exE)
  from rounds_pending[OF r] obtain new where
    nw0: "messages s' = messages ?s @ new \<and> (\<exists>q. pending [] new = Some q) \<and>
          (oc = Normal \<longrightarrow> pending [] new = Some [])"
    by (rule exE)
  have p: "\<exists>new. messages s' = messages s @ User user # new \<and> pending [] new = Some []"
    if "oc = Normal"
    using nw0 that by (intro exI[of _ new]) simp
  have l: "\<exists>s5. rounds env tools 4 ?s = (Normal, s5) \<and> rounds env tools (Suc 0) s5 = (oc, s')"
    if f: "model_calls tr = 5"
  proof -
    from tr0 have t: "trace s' = trace ?s @ tr" by (rule conjunct1)
    from f have f4: "model_calls tr = Suc 4" by simp
    from rounds_last[OF r4 t f4] obtain s5 tr5 where
      "rounds env tools 4 ?s = (Normal, s5) \<and> trace s5 = trace ?s @ tr5 \<and>
       model_calls tr5 = 4 \<and> \<not> list_ex is_printed tr5 \<and>
       rounds env tools (Suc 0) s5 = (oc, s')"
      by (elim exE)
    then show ?thesis by (intro exI[of _ s5]) (simp del: rounds.simps)
  qed
  show "\<exists>tr. trace s' = trace s @ tr \<and> model_calls tr \<le> 5 \<and>
            (oc = Normal \<and> \<not> list_ex is_printed tr \<longrightarrow>
               model_calls tr = 5 \<and> is_tool_invoke (last tr) \<and>
               is_tool_message (last (messages s')) \<and>
               (\<exists>new. messages s' = messages s @ User user # new \<and> pending [] new = Some [])) \<and>
            (model_calls tr = 5 \<longrightarrow>
               (\<exists>s5. rounds env tools 4 (s\<lparr>messages := messages s @ [User user]\<rparr>)
                       = (Normal, s5) \<and>
                     rounds env tools (Suc 0) s5 = (oc, s')))"
    using tr0 p l by (intro exI[of _ tr]) (simp del: rounds.simps)
next
  assume "completions_create env (world s5) (messages s5) tools = (Inr msg, w) \<and>
          msg_tool_calls msg = Some (tc # tcs)"
  then have c: "completions_create env (world s5) (messages s5) tools = (Inr msg, w)"
    and t: "msg_tool_calls msg = Some (tc # tcs)"
    by (rule conjunct1, rule conjunct2)
  from round_shape[OF c t, of 0] obtain od s6 rs tr where
    sh: "dispatch env (tc # tcs)
           (s5\<lparr>world := w, trace := trace s5 @ [ModelCall],
               messages := messages s5 @ [Assistant (content_or_empty msg) (tc # tcs)]\<rparr>)
           = (od, s6) \<and>
         messages s6 =
           messages s5 @ Assistant (content_or_empty msg) (tc # tcs) # answers (tc # tcs) rs \<and>
         length rs \<le> Suc (length tcs) \<and>
         trace s6 = trace s5 @ ModelCall # tr \<and> list_all is_tool_invoke tr \<and>
         (od = Normal \<longrightarrow>
            length rs = Suc (length tcs) \<and> length tr = Suc (length tcs) \<and>
            rounds env tools (Suc 0) s5 = rounds env tools 0 s6) \<and>
         (\<forall>e. od = Raised e \<longrightarrow>
            length rs < Suc (length tcs) \<and> rounds env tools (Suc 0) s5 = (Raised e, s6))"
    by (elim exE)
  have r: "rounds env tools (Suc 0) s5 = (od, s6)"
    using sh by (cases od) (simp_all del: rounds.simps(2) dispatch.simps)
  have n: "od \<noteq> Normal \<longrightarrow> length rs < Suc (length tcs)"
    using sh by (cases od) (simp_all del: rounds.simps dispatch.simps)
  show "\<exists>od s6 rs tr.
         dispatch env (tc # tcs)
           (s5\<lparr>world := w, trace := trace s5 @ [ModelCall],
               messages := messages s5 @ [Assistant (content_or_empty msg) (tc # tcs)]\<rparr>)
           = (od, s6) \<and>
         rounds env tools (Suc 0) s5 = (od, s6) \<and>
         messages s6 =
           messages s5 @ Assistant (content_or_empty msg) (tc # tcs) # answers (tc # tcs) rs \<and>
         trace s6 = trace s5 @ ModelCall # tr \<and> list_all is_tool_invoke tr \<and>
         (od = Normal \<longrightarrow> length rs = Suc (length tcs) \<and> length tr = Suc (length tcs)) \<and>
         (od \<noteq> Normal \<longrightarrow> length rs < Suc (length tcs))"
    by (intro exI[of _ od] exI[of _ s6] exI[of _ rs] exI[of _ tr])
       (use sh r n in \<open>simp del: rounds.simps dispatch.simps\<close>)
next
  assume "\<not> (lower (strip line) = ''quit'' \<or> lower (strip line) = ''exit'') \<and>
    run_turn env tools (strip line) s1 = (Normal, s2)"
  then show "session env tools (line # rest) s1 = session env tools rest s2"
    by (simp add: Let_def)
next
  assume "\<not> (lower (strip line) = ''quit'' \<or> lower (strip line) = ''exit'') \<and>
    run_turn env tools (strip line) s3 = (Raised e, s4)"
  then show "session env tools (line # rest) s3 = (Raised e, s4)"
    by (simp add: Let_def)
qed

theorem five_completions_per_turn_witness:
  "fst (run_turn (scripted always_x (Inr (text_result ''ok''))) [] ''hi'' start) = Normal \<and>
   \<not> list_ex is_printed
       (trace (snd (run_turn (scripted always_x (Inr (text_result ''ok''))) [] ''hi'' start))) \<and>
   model_calls
       (trace (snd (run_turn (scripted always_x (Inr (text_result ''ok''))) [] ''hi'' start))) = 5 \<and>
   is_tool_message
       (last (messages (snd (run_turn (scripted always_x (Inr (text_result ''ok''))) [] ''hi''
                               start)))) \<and>
   session (scripted always_x (Inr (text_result ''ok''))) [] [''hi'', ''EXIT''] start =
     (Normal, snd (run_turn (scripted always_x (Inr (text_result ''ok''))) [] ''hi'' start)) \<and>
   rounds (scripted always_x (Inr (text_result ''ok''))) [] (Suc 0) after_four =
     run_turn (scripted always_x (Inr (text_result ''ok''))) [] ''hi'' start \<and>
   length (messages (snd (run_turn (scripted always_x (Inr (text_result ''ok''))) [] ''hi''
                            start))) = length (messages after_four) + 2 \<and>
   rounds tiring [] (Suc 0) after_four = run_turn tiring [] ''hi'' start \<and>
   fst (run_turn tiring [] ''hi'' start) = Raised (InvocationError ''timeout'') \<and>
   session tiring [] [''hi'', ''EXIT''] start = run_turn tiring [] ''hi'' start"
proof -
  let ?E = "scripted always_x (Inr (text_result ''ok''))"
  let ?s = "start\<lparr>messages := messages start @ [User ''hi'']\<rparr>"
  let ?tc = "ToolCall ''call_5'' ''function'' ''X'' (Some ''{}'')"
  let ?x = "InvocationError ''timeout''"
  obtain S where r: "run_turn ?E [] ''hi'' start = (Normal, S)"
    and b: "\<not> list_ex is_printed (trace S)" and c: "trace start = []"
    using insisting_run by (simp add: start_def)
  obtain T where rt: "run_turn tiring [] ''hi'' start = (Raised ?x, T)"
    using tiring_run by simp
  have m: "\<forall>w ms. \<exists>msg w' tc tcs.
        completions_create ?E w ms [] = (Inr msg, w') \<and> msg_tool_calls msg = Some (tc # tcs) \<and>
        (\<forall>t\<in>set (tc # tcs).
           \<exists>args. parse_arguments (loads ?E) (function_arguments t) = Inr args)"
    by (simp add: scripted_def always_x_def request_x_def parse_arguments_def
          loads_empty_object)
  have p: "\<forall>w n a. \<exists>res w'. call_tool ?E w n a = (Inr res, w')"
    by (simp add: scripted_def)
  have h2: "completions_create ?E (world after_four) (messages after_four) [] =
              (Inr (always_x 4), 5) \<and>
            msg_tool_calls (always_x 4) = Some (?tc # [])"
    by (simp add: after_four_def scripted_def always_x_def request_x_def eval_nat_numeral)
  have h2t: "completions_create tiring (world after_four) (messages after_four) [] =
              (Inr (always_x 4), 5) \<and>
            msg_tool_calls (always_x 4) = Some (?tc # [])"
    by (simp add: after_four_def tiring_def scripted_def always_x_def request_x_def
          eval_nat_numeral)
  have h4: "\<not> (lower (strip ''hi'') = ''quit'' \<or> lower (strip ''hi'') = ''exit'') \<and>
            run_turn ?E [] (strip ''hi'') start = (Normal, S)"
    using r by (simp add: line_hi)
  have h5: "\<not> (lower (strip ''hi'') = ''quit'' \<or> lower (strip ''hi'') = ''exit'') \<and>
            run_turn tiring [] (strip ''hi'') start = (Raised ?x, T)"
    using rt by (simp add: line_hi)
  note A = five_completions_per_turn[where env = ?E and tools = "[]" and user = "''hi''"
      and s = start and oc = Normal and s' = S and ?s5.0 = after_four
      and msg = "always_x 4" and w = 5 and tc = ?tc and tcs = "[]"
      and line = "''hi''" and ?s1.0 = start and ?s2.0 = S and rest = "[''EXIT'']"]
  note B = five_completions_per_turn[where env = tiring and tools = "[]" and user = "''hi''"
      and s = start and oc = "Raised ?x" and s' = T and ?s5.0 = after_four
      and msg = "always_x 4" and w = 5 and tc = ?tc and tcs = "[]"
      and line = "''hi''" and ?s3.0 = start and e = ?x and ?s4.0 = T and rest = "[''EXIT'']"]
  from A[THEN conjunct1, THEN mp, OF r] obtain tr where
    e: "trace S = trace start @ tr \<and> model_calls tr \<le> 5 \<and>
        (Normal = Normal \<and> \<not> list_ex is_printed tr \<longrightarrow>
           model_calls tr = 5 \<and> is_tool_invoke (last tr) \<and>
           is_tool_message (last (messages S)) \<and>
           (\<exists>new. messages S = messages start @ User ''hi'' # new \<and> pending [] new = Some [])) \<and>
        (model_calls tr = 5 \<longrightarrow>
           (\<exists>s5. rounds ?E [] 4 ?s = (Normal, s5) \<and> rounds ?E [] (Suc 0) s5 = (Normal, S)))"
    by (elim exE)
  from e c have tS: "tr = trace S" by simp
  from e b tS have w3: "model_calls (trace S) = 5" and w4: "is_tool_message (last (messages S))"
    by simp_all
  from tS w3 have w3': "model_calls tr = 5" by simp
  from e[THEN conjunct2, THEN conjunct2, THEN conjunct2] w3'
  have "\<exists>s5. rounds ?E [] 4 ?s = (Normal, s5) \<and> rounds ?E [] (Suc 0) s5 = (Normal, S)"
    by (rule mp)
  then obtain s5 where
    s5: "rounds ?E [] 4 ?s = (Normal, s5) \<and> rounds ?E [] (Suc 0) s5 = (Normal, S)"
    by (elim exE)
  from s5 have a5: "rounds ?E [] 4 ?s = (Normal, s5)" by (rule conjunct1)
  from s5 have b5: "rounds ?E [] (Suc 0) s5 = (Normal, S)" by (rule conjunct2)
  from a5 four_rounds_run(1) have "s5 = after_four"
    by (simp add: eval_nat_numeral del: rounds.simps)
  with b5 have w6: "rounds ?E [] (Suc 0) after_four = (Normal, S)"
    by (simp del: rounds.simps)
  from A[THEN conjunct2, THEN conjunct1, THEN mp, OF h2] obtain od s6 rs tr6 where
    f: "dispatch ?E (?tc # [])
           (after_four\<lparr>world := 5, trace := trace after_four @ [ModelCall],
               messages := messages after_four @
                 [Assistant (content_or_empty (always_x 4)) (?tc # [])]\<rparr>) = (od, s6) \<and>
         rounds ?E [] (Suc 0) after_four = (od, s6) \<and>
         messages s6 =
           messages after_four @ Assistant (content_or_empty (always_x 4)) (?tc # []) #
             answers (?tc # []) rs \<and>
         trace s6 = trace after_four @ ModelCall # tr6 \<and> list_all is_tool_invoke tr6 \<and>
         (od = Normal \<longrightarrow> length rs = Suc (length ([] :: tool_call list)) \<and>
                           length tr6 = Suc (length ([] :: tool_call list))) \<and>
         (od \<noteq> Normal \<longrightarrow> length rs < Suc (length ([] :: tool_call list)))"
    by (elim exE)
  from f w6 have o6: "od = Normal" "s6 = S" by (simp_all del: rounds.simps dispatch.simps)
  from f o6 have "length rs = 1" by (simp del: rounds.simps dispatch.simps)
  with f o6 have w7: "length (messages S) = length (messages after_four) + 2"
    by (simp add: length_answers del: rounds.simps dispatch.simps)
  from A[THEN conjunct2, THEN conjunct2, THEN conjunct2, THEN conjunct1, THEN mp, OF h4]
  have "session ?E [] (''hi'' # [''EXIT'']) start = session ?E [] [''EXIT''] S" .
  with line_quit have w5: "session ?E [] [''hi'', ''EXIT''] start = (Normal, S)"
    by (simp add: Let_def)
  from A[THEN conjunct2, THEN conjunct2, THEN conjunct1] m p
  have "\<exists>s' tr new. run_turn ?E [] ''hi'' start = (Normal, s') \<and>
         trace s' = trace start @ tr \<and> \<not> list_ex is_printed tr \<and> model_calls tr = 5 \<and>
         is_tool_invoke (last tr) \<and>
         messages s' = messages start @ User ''hi'' # new \<and> pending [] new = Some [] \<and>
         is_tool_message (last (messages s'))"
    by blast
  then have w1: "fst (run_turn ?E [] ''hi'' start) = Normal" by auto
  from B[THEN conjunct2, THEN conjunct1, THEN mp, OF h2t] obtain od' s6' rs' tr6' where
    g: "dispatch tiring (?tc # [])
           (after_four\<lparr>world := 5, trace := trace after_four @ [ModelCall],
               messages := messages after_four @
                 [Assistant (content_or_empty (always_x 4)) (?tc # [])]\<rparr>) = (od', s6') \<and>
         rounds tiring [] (Suc 0) after_four = (od', s6') \<and>
         messages s6' =
           messages after_four @ Assistant (content_or_empty (always_x 4)) (?tc # []) #
             answers (?tc # []) rs' \<and>
         trace s6' = trace after_four @ ModelCall # tr6' \<and> list_all is_tool_invoke tr6' \<and>
         (od' = Normal \<longrightarrow> length rs' = Suc (length ([] :: tool_call list)) \<and>
                           length tr6' = Suc (length ([] :: tool_call list))) \<and>
         (od' \<noteq> Normal \<longrightarrow> length rs' < Suc (length ([] :: tool_call list)))"
    by (elim exE)
  have d: "dispatch tiring (?tc # [])
           (after_four\<lparr>world := 5, trace := trace after_four @ [ModelCall],
               messages := messages after_four @
                 [Assistant (content_or_empty (always_x 4)) (?tc # [])]\<rparr>) =
           (Raised ?x, snd (run_turn tiring [] ''hi'' start))"
    by (simp add: tiring_run) (simp add: run_simps after_four_def)
  from g d rt have w8: "rounds tiring [] (Suc 0) after_four = (Raised ?x, T)"
    by (simp del: rounds.simps dispatch.simps)
  from B[THEN conjunct2, THEN conjunct2, THEN conjunct2, THEN conjunct2, THEN mp, OF h5]
  have w9: "session tiring [] (''hi'' # [''EXIT'']) start = (Raised ?x, T)" .
  from w1 b w3 w4 w5 w6 w7 w8 w9 show ?thesis
    by (simp add: r rt del: rounds.simps session.simps)
qed

text \<open>
  The model requests \<open>X\<close> at every completion and the peer answers. The turn requests
  five completions and invokes \<open>X\<close> five times: the request of the fifth completion,
  \<open>call_5\<close>, is dispatched and has its tool message, the last of the transcript.
\<close>

theorem five_completions_counterexample:
  "fst (run_turn (scripted always_x (Inr (text_result ''ok''))) [] ''hi'' start) = Normal \<and>
   model_calls
     (trace (snd (run_turn (scripted always_x (Inr (text_result ''ok''))) [] ''hi'' start))) = 5 \<and>
   filter is_tool_invoke
     (trace (snd (run_turn (scripted always_x (Inr (text_result ''ok''))) [] ''hi'' start))) =
     [ToolInvoke ''X'' (JObject []), ToolInvoke ''X'' (JObject []), ToolInvoke ''X'' (JObject []),
      ToolInvoke ''X'' (JObject []), ToolInvoke ''X'' (JObject [])] \<and>
   drop 10 (messages (snd (run_turn (scripted always_x (Inr (text_result ''ok''))) [] ''hi''
                            start))) =
     [Assistant [] [ToolCall ''call_5'' ''function'' ''X'' (Some ''{}'')],
      Tool ''call_5'' ''X'' ''ok'']"
  by (simp add: insisting_run model_calls_def)





lemma collect_parts_map: "collect_parts bs parts = parts @ map block_part bs"
  by (induction bs arbitrary: parts) auto

text \<open>
  C4, as the code has it. The result is the rendering of the whole result only when
  the payload has no block at all (no content, or an empty list). Otherwise every
  block gives one part, its text for a textual block and its own rendering for any
  other block, and the result joins the parts that are not empty with newlines; the
  textual blocks \<open>a\<close> and \<open>b\<close> give \<open>a\<close>, a newline, \<open>b\<close>.
\<close>

theorem flatten_closed_form:
  "flatten_tool_result r =
     (case content r of
        None \<Rightarrow> str_result r
      | Some [] \<Rightarrow> str_result r
      | Some (b # bs) \<Rightarrow> join newline (filter (\<lambda>p. p \<noteq> []) (map block_part (b # bs)))) \<and>
   flatten_tool_result
     \<lparr>content = Some [TypedText (Some ''a''), TypedText (Some ''b'')], isError = e,
      str_result = x\<rparr> = ''a'' @ newline @ ''b''"
  by (auto simp: flatten_tool_result_def collect_parts_map split: option.splits list.splits)

text \<open>
  A payload whose only block is not textual gives the rendering of that block, not of
  the payload; a payload whose only block is a textual block with empty text gives the
  empty string.
\<close>

theorem flatten_counterexample:
  "flatten_tool_result
     \<lparr>content = Some [Opaque ''image''], isError = False, str_result = ''CallToolResult''\<rparr>
     = ''image'' \<and>
   flatten_tool_result
     \<lparr>content = Some [TypedText (Some [])], isError = False, str_result = ''CallToolResult''\<rparr>
     = []"
  by (simp add: flatten_tool_result_def)

text \<open>
  C5, as the code has it. A result that \<open>call_tool\<close> returns, whatever it holds and
  whether or not its error flag is set, is flattened into the tool message of its
  request, and the loop goes on with the next request. An exception that \<open>call_tool\<close>
  raises is not caught: no tool message is appended, the round ends with the
  exception, and so does the turn. An exception raised by the request for a completion
  ends the turn in the same way. An exception that ends a turn ends the session, and
  an exception that leaves \<open>run_client\<close> ends the process, uncaught.
\<close>

theorem failures_in_a_round:
  "(parse_arguments (loads env) (function_arguments tc) = Inr args \<and>
    call_tool env (world s) (function_name tc) args = (Inr res, w) \<longrightarrow>
      dispatch env (tc # tcs) s =
        dispatch env tcs
          (s\<lparr>world := w,
             trace := trace s @ [ToolInvoke (function_name tc) args],
             messages := messages s @
                           [Tool (call_id tc) (function_name tc) (flatten_tool_result res)]\<rparr>)) \<and>
   (parse_arguments (loads env1) (function_arguments tc1) = Inr args1 \<and>
    call_tool env1 (world s1) (function_name tc1) args1 = (Inl e1, w1) \<longrightarrow>
      dispatch env1 (tc1 # tcs1) s1 =
        (Raised (InvocationError e1),
         s1\<lparr>world := w1,
            trace := trace s1 @ [ToolInvoke (function_name tc1) args1]\<rparr>)) \<and>
   (completions_create env2 (world s2) (messages s2) tools2 = (Inr msg, w2) \<and>
    msg_tool_calls msg = Some (tc2 # tcs2) \<and>
    dispatch env2 (tc2 # tcs2)
      (s2\<lparr>world := w2, trace := trace s2 @ [ModelCall],
          messages := messages s2 @ [Assistant (content_or_empty msg) (tc2 # tcs2)]\<rparr>)
      = (Raised e2, s2') \<longrightarrow>
      rounds env2 tools2 (Suc n2) s2 = (Raised e2, s2')) \<and>
   (completions_create env3 (world s3) (messages s3) tools3 = (Inl e3, w3) \<longrightarrow>
      rounds env3 tools3 (Suc n3) s3 =
        (Raised (CompletionError e3),
         s3\<lparr>world := w3, trace := trace s3 @ [ModelCall]\<rparr>)) \<and>
   (\<not> (lower (strip line) = ''quit'' \<or> lower (strip line) = ''exit'') \<and>
    run_turn env4 tools4 (strip line) s4 = (Raised e4, s4') \<longrightarrow>
      session env4 tools4 (line # rest) s4 = (Raised e4, s4')) \<and>
   (2 \<le> length argv \<and> run_client env5 (argv ! 1) stdin w5 = (Raised e5, s5) \<longrightarrow>
      main env5 argv stdin w5 = (Uncaught e5, s5))"
proof (intro conjI impI)
  assume "parse_arguments (loads env) (function_arguments tc) = Inr args \<and>
          call_tool env (world s) (function_name tc) args = (Inr res, w)"
  then have "parse_arguments (loads env) (function_arguments tc) = Inr args"
    and "call_tool env (world s) (function_name tc) args = (Inr res, w)"
    by (rule conjunct1, rule conjunct2)
  then show "dispatch env (tc # tcs) s =
        dispatch env tcs
          (s\<lparr>world := w,
             trace := trace s @ [ToolInvoke (function_name tc) args],
             messages := messages s @
                           [Tool (call_id tc) (function_name tc) (flatten_tool_result res)]\<rparr>)"
    by (rule dispatch_result)
next
  assume "parse_arguments (loads env1) (function_arguments tc1) = Inr args1 \<and>
          call_tool env1 (world s1) (function_name tc1) args1 = (Inl e1, w1)"
  then have "parse_arguments (loads env1) (function_arguments tc1) = Inr args1"
    and "call_tool env1 (world s1) (function_name tc1) args1 = (Inl e1, w1)"
    by (rule conjunct1, rule conjunct2)
  then show "dispatch env1 (tc1 # tcs1) s1 =
        (Raised (InvocationError e1),
         s1\<lparr>world := w1,
            trace := trace s1 @ [ToolInvoke (function_name tc1) args1]\<rparr>)"
    by (rule dispatch_raise)
next
  assume a: "completions_create env2 (world s2) (messages s2) tools2 = (Inr msg, w2) \<and>
    msg_tool_calls msg = Some (tc2 # tcs2) \<and>
    dispatch env2 (tc2 # tcs2)
      (s2\<lparr>world := w2, trace := trace s2 @ [ModelCall],
          messages := messages s2 @ [Assistant (content_or_empty msg) (tc2 # tcs2)]\<rparr>)
      = (Raised e2, s2')"
  then have c: "completions_create env2 (world s2) (messages s2) tools2 = (Inr msg, w2)"
    and t: "msg_tool_calls msg = Some (tc2 # tcs2)" by simp_all
  from rounds_tools[OF c t, of n2] a
  show "rounds env2 tools2 (Suc n2) s2 = (Raised e2, s2')"
    by (simp del: rounds.simps dispatch.simps)
next
  assume "completions_create env3 (world s3) (messages s3) tools3 = (Inl e3, w3)"
  then show "rounds env3 tools3 (Suc n3) s3 =
        (Raised (CompletionError e3),
         s3\<lparr>world := w3, trace := trace s3 @ [ModelCall]\<rparr>)"
    by (rule rounds_raise)
next
  assume "\<not> (lower (strip line) = ''quit'' \<or> lower (strip line) = ''exit'') \<and>
    run_turn env4 tools4 (strip line) s4 = (Raised e4, s4')"
  then show "session env4 tools4 (line # rest) s4 = (Raised e4, s4')"
    by (simp add: Let_def)
next
  assume "2 \<le> length argv \<and> run_client env5 (argv ! 1) stdin w5 = (Raised e5, s5)"
  then show "main env5 argv stdin w5 = (Uncaught e5, s5)"
    by (simp add: main_def)
qed

theorem failures_in_a_round_witness:
  "dispatch (scripted always_x (Inr error_result))
     [ToolCall ''call_1'' ''function'' ''X'' (Some ''{}'')] start =
     (Normal,
      \<lparr>world = 0,
       messages = [System system_prompt,
                   Tool ''call_1'' ''X'' ''Error executing tool X: no such event''],
       trace = [ToolInvoke ''X'' (JObject [])]\<rparr>) \<and>
   dispatch (scripted always_x (Inl ''connection closed''))
     [ToolCall ''call_1'' ''function'' ''X'' (Some ''{}'')] start =
     (Raised (InvocationError ''connection closed''),
      \<lparr>world = 0, messages = [System system_prompt],
       trace = [ToolInvoke ''X'' (JObject [])]\<rparr>) \<and>
   rounds (scripted always_x (Inl ''connection closed'')) [] (Suc 4) start =
     (Raised (InvocationError ''connection closed''),
      \<lparr>world = 1,
       messages = [System system_prompt,
                   Assistant [] [ToolCall ''call_1'' ''function'' ''X'' (Some ''{}'')]],
       trace = [ModelCall, ToolInvoke ''X'' (JObject [])]\<rparr>) \<and>
   rounds failing_model [] (Suc 4) start =
     (Raised (CompletionError ''rate limit''),
      \<lparr>world = 0, messages = [System system_prompt], trace = [ModelCall]\<rparr>) \<and>
   session (scripted always_x (Inl ''connection closed'')) [] [''hi'', ''quit''] start =
     (Raised (InvocationError ''connection closed''),
      \<lparr>world = 1,
       messages = [System system_prompt, User ''hi'',
                   Assistant [] [ToolCall ''call_1'' ''function'' ''X'' (Some ''{}'')]],
       trace = [ModelCall, ToolInvoke ''X'' (JObject [])]\<rparr>) \<and>
   fst (main (scripted always_x (Inl ''connection closed'')) demo_argv [''hi''] 0) =
     Uncaught (InvocationError ''connection closed'')"
proof -
  let ?A = "scripted always_x (Inr error_result)"
  let ?B = "scripted always_x (Inl ''connection closed'')"
  let ?tc = "ToolCall ''call_1'' ''function'' ''X'' (Some ''{}'')"
  let ?e = "InvocationError ''connection closed''"
  let ?s2 = "\<lparr>world = Suc 0,
       messages = [System system_prompt, Assistant [] [?tc]],
       trace = [ModelCall, ToolInvoke ''X'' (JObject [])]\<rparr>"
  let ?s4 = "\<lparr>world = Suc 0,
       messages = [System system_prompt, User ''hi'', Assistant [] [?tc]],
       trace = [ModelCall, ToolInvoke ''X'' (JObject [])]\<rparr>"
  obtain s5 where rc: "run_client ?B (demo_argv ! 1) [''hi''] 0 = (Raised ?e, s5)"
    by (simp add: run_client_def demo_argv_def convert_mcp_tools_to_groq_def
          converted_entry_def description_of_def params_of_def run_simps)
  have h1: "parse_arguments (loads ?A) (function_arguments ?tc) = Inr (JObject []) \<and>
            call_tool ?A (world start) (function_name ?tc) (JObject []) = (Inr error_result, 0)"
    by (simp add: run_simps)
  have h2: "parse_arguments (loads ?B) (function_arguments ?tc) = Inr (JObject []) \<and>
            call_tool ?B (world start) (function_name ?tc) (JObject [])
              = (Inl ''connection closed'', 0)"
    by (simp add: run_simps)
  have h3: "completions_create ?B (world start) (messages start) [] = (Inr (always_x 0), Suc 0) \<and>
            msg_tool_calls (always_x 0) = Some (?tc # []) \<and>
            dispatch ?B (?tc # [])
              (start\<lparr>world := Suc 0, trace := trace start @ [ModelCall],
                 messages := messages start @
                   [Assistant (content_or_empty (always_x 0)) (?tc # [])]\<rparr>) = (Raised ?e, ?s2)"
    by (simp add: run_simps)
  have h4: "completions_create failing_model (world start) (messages start) []
              = (Inl ''rate limit'', 0)"
    by (simp add: run_simps)
  have h5: "\<not> (lower (strip ''hi'') = ''quit'' \<or> lower (strip ''hi'') = ''exit'') \<and>
            run_turn ?B [] (strip ''hi'') start = (Raised ?e, ?s4)"
    using broken_peer_run by (simp add: line_hi)
  have h6: "2 \<le> length demo_argv \<and> run_client ?B (demo_argv ! 1) [''hi''] 0 = (Raised ?e, s5)"
    using rc by (simp add: demo_argv_def)
  from failures_in_a_round[where env = ?A and s = start and tc = ?tc and res = error_result
      and w = 0 and tcs = "[]" and args = "JObject []" and ?args1.0 = "JObject []"
      and ?env1.0 = ?B and ?s1.0 = start and ?tc1.0 = ?tc and ?e1.0 = "''connection closed''"
      and ?w1.0 = 0 and ?tcs1.0 = "[]"
      and ?env2.0 = ?B and ?s2.0 = start and ?tools2.0 = "[]" and msg = "always_x 0"
      and ?w2.0 = "Suc 0" and ?tc2.0 = ?tc and ?tcs2.0 = "[]" and ?e2.0 = ?e and s2' = ?s2
      and ?n2.0 = 4
      and ?env3.0 = failing_model and ?s3.0 = start and ?tools3.0 = "[]"
      and ?e3.0 = "''rate limit''" and ?w3.0 = 0 and ?n3.0 = 4
      and line = "''hi''" and ?env4.0 = ?B and ?tools4.0 = "[]" and ?s4.0 = start
      and ?e4.0 = ?e and s4' = ?s4 and rest = "[''quit'']"
      and argv = demo_argv and ?env5.0 = ?B and stdin = "[''hi'']" and ?w5.0 = 0
      and ?e5.0 = ?e and ?s5.0 = s5]
    h1 h2 h3 h4 h5 h6
  have c1: "dispatch ?A [?tc] start =
              dispatch ?A []
                (start\<lparr>world := 0,
                   trace := trace start @ [ToolInvoke (function_name ?tc) (JObject [])],
                   messages := messages start @
                                 [Tool (call_id ?tc) (function_name ?tc)
                                    (flatten_tool_result error_result)]\<rparr>)"
    and c2: "dispatch ?B [?tc] start =
              (Raised ?e,
               start\<lparr>world := 0,
                  trace := trace start @ [ToolInvoke (function_name ?tc) (JObject [])]\<rparr>)"
    and c3: "rounds ?B [] (Suc 4) start = (Raised ?e, ?s2)"
    and c4: "rounds failing_model [] (Suc 4) start =
              (Raised (CompletionError ''rate limit''),
               start\<lparr>world := 0, trace := trace start @ [ModelCall]\<rparr>)"
    and c5: "session ?B [] (''hi'' # [''quit'']) start = (Raised ?e, ?s4)"
    and c6: "main ?B demo_argv [''hi''] 0 = (Uncaught ?e, s5)"
    by (simp_all del: dispatch.simps rounds.simps session.simps)
  from c1 have d1: "dispatch ?A [?tc] start =
     (Normal,
      \<lparr>world = 0,
       messages = [System system_prompt,
                   Tool ''call_1'' ''X'' ''Error executing tool X: no such event''],
       trace = [ToolInvoke ''X'' (JObject [])]\<rparr>)"
    by (simp add: run_simps)
  from c2 have d2: "dispatch ?B [?tc] start =
     (Raised ?e,
      \<lparr>world = 0, messages = [System system_prompt],
       trace = [ToolInvoke ''X'' (JObject [])]\<rparr>)"
    by (simp add: run_simps)
  from c4 have d4: "rounds failing_model [] (Suc 4) start =
     (Raised (CompletionError ''rate limit''),
      \<lparr>world = 0, messages = [System system_prompt], trace = [ModelCall]\<rparr>)"
    by (simp add: start_def del: rounds.simps)
  from d1 d2 c3 d4 c5 c6 show ?thesis
    by (simp del: dispatch.simps rounds.simps session.simps)
qed

text \<open>
  With a peer whose \<open>call_tool\<close> raises, the first line of input ends the process with
  that exception and no tool message in the transcript; with a model whose completion
  raises, likewise. Neither is an error of discovery.
\<close>

theorem failures_counterexample:
  "fst (main (scripted always_x (Inl ''connection closed'')) demo_argv [''hi'', ''quit''] 0) =
     Uncaught (InvocationError ''connection closed'') \<and>
   filter is_tool_message
     (messages (snd (main (scripted always_x (Inl ''connection closed'')) demo_argv
                       [''hi'', ''quit''] 0))) = [] \<and>
   fst (main failing_model demo_argv [''hi'', ''quit''] 0) =
     Uncaught (CompletionError ''rate limit'')"
  by (simp add: main_def run_client_def demo_argv_def convert_mcp_tools_to_groq_def
        converted_entry_def description_of_def params_of_def run_simps)

text \<open>
  C6. The first completion of a turn requests the one tool \<open>X\<close> with the arguments
  \<open>{"a":1}\<close>, the peer returns a result, and the second completion is text that strips
  to \<open>done\<close>, with no tool request. Then the turn returns normally; it has appended the
  user's line, the assistant message carrying the request and exactly one tool message,
  for \<open>X\<close> and with the id of the request; it has invoked \<open>X\<close> once, with the dict
  \<open>{"a": 1}\<close>; and it has printed the stripped text \<open>done\<close>, which \<open>print\<close> is given
  between two newlines.
\<close>

theorem scripted_turn:
  \<open>completions_create env (world s) (messages s @ [User u]) tools =
      (Inr \<lparr>msg_content = c, msg_tool_calls = Some [ToolCall i ty ''X'' (Some ''{"a":1}'')]\<rparr>,
       w1) \<Longrightarrow>
   loads env ''{"a":1}'' = Value (JObject [(str ''a'', JInt 1)]) \<Longrightarrow>
   call_tool env w1 ''X'' (JObject [(str ''a'', JInt 1)]) = (Inr res, w2) \<Longrightarrow>
   completions_create env w2
      (messages s @ [User u,
                     Assistant (case c of None \<Rightarrow> [] | Some x \<Rightarrow> x)
                       [ToolCall i ty ''X'' (Some ''{"a":1}'')],
                     Tool i ''X'' (flatten_tool_result res)]) tools =
      (Inr \<lparr>msg_content = Some t, msg_tool_calls = q\<rparr>, w3) \<Longrightarrow>
   q = None \<or> q = Some [] \<Longrightarrow>
   strip t = ''done'' \<Longrightarrow>
   run_turn env tools u s =
     (Normal,
      s\<lparr>world := w3,
        messages := messages s @
           [User u,
            Assistant (case c of None \<Rightarrow> [] | Some x \<Rightarrow> x)
              [ToolCall i ty ''X'' (Some ''{"a":1}'')],
            Tool i ''X'' (flatten_tool_result res)],
        trace := trace s @
           [ModelCall, ToolInvoke ''X'' (JObject [(str ''a'', JInt 1)]), ModelCall,
            Printed (newline @ ''done'' @ newline)]\<rparr>)\<close>
  by (auto simp: run_turn_def five_Suc Let_def parse_arguments_def content_or_empty_def)

theorem scripted_turn_witness:
  \<open>run_turn (scripted x_then_done (Inr (text_result ''ok''))) [] ''hi'' start =
     (Normal,
      \<lparr>world = 2,
       messages = [System system_prompt, User ''hi'',
                   Assistant [] [ToolCall ''call_1'' ''function'' ''X'' (Some ''{"a":1}'')],
                   Tool ''call_1'' ''X'' ''ok''],
       trace = [ModelCall, ToolInvoke ''X'' (JObject [(str ''a'', JInt 1)]), ModelCall,
                Printed (newline @ ''done'' @ newline)]\<rparr>)\<close>
proof -
  let ?E = "scripted x_then_done (Inr (text_result ''ok''))"
  have h1: \<open>completions_create ?E (world start) (messages start @ [User ''hi'']) [] =
      (Inr \<lparr>msg_content = None,
            msg_tool_calls = Some [ToolCall ''call_1'' ''function'' ''X'' (Some ''{"a":1}'')]\<rparr>,
       Suc 0)\<close>
    by (simp add: scripted_def x_then_done_def request_x_def start_def)
  have h2: \<open>loads ?E ''{"a":1}'' = Value (JObject [(str ''a'', JInt 1)])\<close>
    by (simp add: scripted_def loads_a1)
  have h3: "call_tool ?E (Suc 0) ''X'' (JObject [(str ''a'', JInt 1)]) =
              (Inr (text_result ''ok''), Suc 0)"
    by (simp add: scripted_def)
  have h4: \<open>completions_create ?E (Suc 0)
      (messages start @ [User ''hi'',
                     Assistant (case None of None \<Rightarrow> [] | Some x \<Rightarrow> x)
                       [ToolCall ''call_1'' ''function'' ''X'' (Some ''{"a":1}'')],
                     Tool ''call_1'' ''X'' (flatten_tool_result (text_result ''ok''))]) [] =
      (Inr \<lparr>msg_content = Some ''done'', msg_tool_calls = None\<rparr>, Suc (Suc 0))\<close>
    by (simp add: scripted_def x_then_done_def say_def)
  have h5: "(None :: tool_call list option) = None \<or> (None :: tool_call list option) = Some []"
    by simp
  from scripted_turn[OF h1 h2 h3 h4 h5 strip_done]
  show ?thesis
    by (simp add: start_def text_result_def flatten_tool_result_def)
qed

lemma convert_loop_map: "convert_loop ts acc = acc @ map converted_entry ts"
  by (induction ts arbitrary: acc) auto

text \<open>
  C7. The conversion is a function of the list of descriptors alone. It gives one entry
  per descriptor, in order, of type \<open>function\<close> and with the descriptor's name; a
  description that is missing becomes \<open>No description\<close> and one that is there (and not
  empty) is kept; a descriptor with no schema under either attribute gets the schema
  \<open>{"type": "object"}\<close>, and a schema under \<open>inputSchema\<close> (not empty) is kept.
\<close>

theorem convert_entries:
  "length (convert_mcp_tools_to_groq ts) = length ts \<and>
   (\<forall>i < length ts.
      gt_type (convert_mcp_tools_to_groq ts ! i) = ''function'' \<and>
      fn_name (gt_function (convert_mcp_tools_to_groq ts ! i)) = td_name (ts ! i) \<and>
      (td_description (ts ! i) = None \<longrightarrow>
         fn_description (gt_function (convert_mcp_tools_to_groq ts ! i)) = ''No description'') \<and>
      (\<forall>d. td_description (ts ! i) = Some d \<and> d \<noteq> [] \<longrightarrow>
         fn_description (gt_function (convert_mcp_tools_to_groq ts ! i)) = d) \<and>
      (td_inputSchema (ts ! i) = None \<and> td_input_schema (ts ! i) = None \<longrightarrow>
         fn_parameters (gt_function (convert_mcp_tools_to_groq ts ! i)) =
           [(str ''type'', JString (str ''object''))]) \<and>
      (\<forall>d. td_inputSchema (ts ! i) = Some d \<and> d \<noteq> [] \<longrightarrow>
         fn_parameters (gt_function (convert_mcp_tools_to_groq ts ! i)) = d))"
  by (auto simp: convert_mcp_tools_to_groq_def convert_loop_map converted_entry_def
        description_of_def params_of_def split: option.splits list.splits)

theorem convert_entries_witness:
  "length (convert_mcp_tools_to_groq demo_tools) = 2 \<and>
   fn_name (gt_function (convert_mcp_tools_to_groq demo_tools ! 0)) = ''create_event'' \<and>
   fn_description (gt_function (convert_mcp_tools_to_groq demo_tools ! 0)) = ''Create an event'' \<and>
   fn_parameters (gt_function (convert_mcp_tools_to_groq demo_tools ! 0)) =
     [(str ''type'', JString (str ''object'')),
      (str ''required'', JArray [JString (str ''title'')])] \<and>
   fn_name (gt_function (convert_mcp_tools_to_groq demo_tools ! 1)) = ''list_upcoming'' \<and>
   fn_description (gt_function (convert_mcp_tools_to_groq demo_tools ! 1)) = ''No description'' \<and>
   fn_parameters (gt_function (convert_mcp_tools_to_groq demo_tools ! 1)) =
     [(str ''type'', JString (str ''object''))]"
proof -
  have l: "length demo_tools = 2" by (simp add: demo_tools_def)
  have d0: "demo_tools ! 0 = \<lparr>td_name = ''create_event'', td_description = Some ''Create an event'',
       td_inputSchema = Some [(str ''type'', JString (str ''object'')),
      (str ''required'', JArray [JString (str ''title'')])],
       td_input_schema = None\<rparr>"
    and d1: "demo_tools ! 1 = \<lparr>td_name = ''list_upcoming'', td_description = None,
       td_inputSchema = None, td_input_schema = None\<rparr>"
    by (simp_all add: demo_tools_def)
  from convert_entries[of demo_tools] l
  have len: "length (convert_mcp_tools_to_groq demo_tools) = 2"
    and all: "\<forall>i < 2.
      gt_type (convert_mcp_tools_to_groq demo_tools ! i) = ''function'' \<and>
      fn_name (gt_function (convert_mcp_tools_to_groq demo_tools ! i)) = td_name (demo_tools ! i) \<and>
      (td_description (demo_tools ! i) = None \<longrightarrow>
         fn_description (gt_function (convert_mcp_tools_to_groq demo_tools ! i)) = ''No description'') \<and>
      (\<forall>d. td_description (demo_tools ! i) = Some d \<and> d \<noteq> [] \<longrightarrow>
         fn_description (gt_function (convert_mcp_tools_to_groq demo_tools ! i)) = d) \<and>
      (td_inputSchema (demo_tools ! i) = None \<and> td_input_schema (demo_tools ! i) = None \<longrightarrow>
         fn_parameters (gt_function (convert_mcp_tools_to_groq demo_tools ! i)) =
           [(str ''type'', JString (str ''object''))]) \<and>
      (\<forall>d. td_inputSchema (demo_tools ! i) = Some d \<and> d \<noteq> [] \<longrightarrow>
         fn_parameters (gt_function (convert_mcp_tools_to_groq demo_tools ! i)) = d)"
    by simp_all
  from all[rule_format, of 0] d0 all[rule_format, of 1] d1 len
  show ?thesis by simp
qed

text \<open>
  C8. A line that, stripped and lowercased, is \<open>quit\<close> or \<open>exit\<close> ends the session
  normally in the state it found: nothing is requested, invoked or appended, and the
  lines after it are not read. When the lines before it have been served, so that the
  loop was waiting for input, the process ends with exit code 0. With fewer than two
  elements in \<open>argv\<close> the program prints the usage line and exits with code 1, having
  done nothing else.
\<close>

theorem quit_and_usage:
  "(lower (strip line) = ''quit'' \<or> lower (strip line) = ''exit'' \<longrightarrow>
      session env tools (line # rest) s = (Normal, s)) \<and>
   ((lower (strip line1) = ''quit'' \<or> lower (strip line1) = ''exit'') \<and> 2 \<le> length argv \<and>
    run_client env1 (argv ! 1) pre w = (Raised EOFError, s1) \<longrightarrow>
      main env1 argv (pre @ line1 # rest1) w = (Exit 0, s1)) \<and>
   (length argv2 < 2 \<longrightarrow>
      main env2 argv2 stdin2 w2 =
        (Exit 1, \<lparr>world = w2, messages = [], trace = [Printed usage]\<rparr>))"
proof (intro conjI impI)
  assume "lower (strip line) = ''quit'' \<or> lower (strip line) = ''exit''"
  then show "session env tools (line # rest) s = (Normal, s)" by (simp add: Let_def)
next
  assume "length argv2 < 2"
  then show "main env2 argv2 stdin2 w2 =
        (Exit 1, \<lparr>world = w2, messages = [], trace = [Printed usage]\<rparr>)"
    by (simp add: main_def)
next
  assume a: "(lower (strip line1) = ''quit'' \<or> lower (strip line1) = ''exit'') \<and>
    2 \<le> length argv \<and> run_client env1 (argv ! 1) pre w = (Raised EOFError, s1)"
  obtain r w1 where lt: "list_tools env1 w (argv ! 1) = (r, w1)"
    by (cases "list_tools env1 w (argv ! 1)")
  show "main env1 argv (pre @ line1 # rest1) w = (Exit 0, s1)"
  proof (cases r)
    case (Inl e)
    with a lt show ?thesis by (simp add: run_client_def)
  next
    case (Inr tools)
    let ?s0 = "\<lparr>world = w1, messages = [System system_prompt],
                 trace = [Connected (map (\<lambda>t. fn_name (gt_function t))
                            (convert_mcp_tools_to_groq tools)), Banner]\<rparr>"
    from a lt Inr have "session env1 (convert_mcp_tools_to_groq tools) pre ?s0
                          = (Raised EOFError, s1)"
      by (simp add: run_client_def Let_def)
    from session_quit_after[OF this, of line1 rest1] a
    have "session env1 (convert_mcp_tools_to_groq tools) (pre @ line1 # rest1) ?s0 = (Normal, s1)"
      by simp
    with a lt Inr show ?thesis by (simp add: main_def run_client_def Let_def)
  qed
qed

theorem quit_and_usage_witness:
  \<open>session (scripted x_then_done (Inr (text_result ''ok''))) [] (''  QuIt '' # [''later''])
     start = (Normal, start) \<and>
   main (scripted x_then_done (Inr (text_result ''ok''))) demo_argv
     ([''hi''] @ ''EXIT'' # [''later'']) 0 =
     (Exit 0,
      \<lparr>world = 2,
       messages = [System system_prompt, User ''hi'',
                   Assistant [] [ToolCall ''call_1'' ''function'' ''X'' (Some ''{"a":1}'')],
                   Tool ''call_1'' ''X'' ''ok''],
       trace = [Connected [''X''], Banner, ModelCall,
                ToolInvoke ''X'' (JObject [(str ''a'', JInt 1)]), ModelCall,
                Printed (newline @ ''done'' @ newline)]\<rparr>) \<and>
   main (scripted x_then_done (Inr (text_result ''ok''))) [''groq_mcp_client.py''] [] 0 =
     (Exit 1, \<lparr>world = 0, messages = [], trace = [Printed usage]\<rparr>)\<close>
proof -
  let ?E = "scripted x_then_done (Inr (text_result ''ok''))"
  let ?S = \<open>\<lparr>world = 2::nat,
       messages = [System system_prompt, User ''hi'',
                   Assistant [] [ToolCall ''call_1'' ''function'' ''X'' (Some ''{"a":1}'')],
                   Tool ''call_1'' ''X'' ''ok''],
       trace = [Connected [''X''], Banner, ModelCall,
                ToolInvoke ''X'' (JObject [(str ''a'', JInt 1)]), ModelCall,
                Printed (newline @ ''done'' @ newline)]\<rparr>\<close>
  have rc: "run_client ?E (demo_argv ! 1) [''hi''] 0 = (Raised EOFError, ?S)"
    by (simp add: run_client_def demo_argv_def convert_mcp_tools_to_groq_def
          converted_entry_def description_of_def params_of_def run_simps)
  have h1: "lower (strip ''  QuIt '') = ''quit'' \<or> lower (strip ''  QuIt '') = ''exit''"
    by (simp add: line_quit)
  have h2: "(lower (strip ''EXIT'') = ''quit'' \<or> lower (strip ''EXIT'') = ''exit'') \<and>
            2 \<le> length demo_argv \<and> run_client ?E (demo_argv ! 1) [''hi''] 0 = (Raised EOFError, ?S)"
    using rc by (simp add: line_quit demo_argv_def)
  have h3: "length [''groq_mcp_client.py''] < 2" by simp
  from quit_and_usage[where line = "''  QuIt ''" and env = ?E and tools = "[]"
      and rest = "[''later'']" and s = start
      and ?line1.0 = "''EXIT''" and argv = demo_argv and ?env1.0 = ?E and pre = "[''hi'']"
      and w = 0 and ?s1.0 = ?S and ?rest1.0 = "[''later'']"
      and ?argv2.0 = "[''groq_mcp_client.py'']" and ?env2.0 = ?E and ?stdin2.0 = "[]"
      and ?w2.0 = 0]
    h1 h2 h3
  show ?thesis by (simp del: session.simps)
qed

section \<open>The claims about the to-do service\<close>

lemma create_task_done:
  "create_task payload s = (t, s') \<Longrightarrow> done_consistent t \<and> TASKS s' (t_id t) = Some t"
  by (auto simp: create_task_def next_task_id_def done_consistent_def all_done_def
        list_all_iff Let_def split: prod.splits)

lemma add_subtask_done:
  "add_subtask i payload s = (Inr t, s') \<Longrightarrow> done_consistent t \<and> TASKS s' i = Some t"
  by (auto simp: add_subtask_def new_subtask_def next_subtask_id_def done_consistent_def
        all_done_def list_all_iff Let_def split: prod.splits option.splits)

lemma update_subtask_done:
  "update_subtask i j payload s = (Inr t, s') \<Longrightarrow> done_consistent t \<and> TASKS s' i = Some t"
  by (auto simp: update_subtask_def done_consistent_def all_done_def list_all_iff Let_def
        split: prod.splits option.splits)

lemma find_subtask_None: "find_subtask j xs = None \<longleftrightarrow> j \<notin> st_id ` set xs"
  by (induction xs) auto

lemma demo_created:
  "create_task demo_payload empty_store = (demo_task, demo_store)"
  by (simp add: create_task_def demo_payload_def empty_store_def next_task_id_def
        new_subtask_def next_subtask_id_def all_done_def demo_task_def demo_store_def Let_def)

text \<open>
  C9. After \<open>create_task\<close>, and after \<open>add_subtask\<close> and \<open>update_subtask\<close> when they succeed,
  the task returned is the task stored under its id, and its flag \<open>done\<close> is true exactly
  when it has a subtask and every subtask is done; so a task without subtasks is not done.
\<close>

theorem done_flag_maintained:
  "(create_task p s = (t1, s1) \<longrightarrow> done_consistent t1 \<and> TASKS s1 (t_id t1) = Some t1) \<and>
   (add_subtask i q s = (Inr t2, s2) \<longrightarrow> done_consistent t2 \<and> TASKS s2 i = Some t2) \<and>
   (update_subtask i j u s = (Inr t3, s3) \<longrightarrow> done_consistent t3 \<and> TASKS s3 i = Some t3) \<and>
   (done_consistent t \<and> t_subtasks t = [] \<longrightarrow> \<not> t_done t)"
  using create_task_done add_subtask_done update_subtask_done
  by (auto simp: done_consistent_def)

theorem done_flag_maintained_witness:
  "create_task demo_payload empty_store = (demo_task, demo_store) \<and>
   done_consistent demo_task \<and> TASKS demo_store 1 = Some demo_task \<and>
   (case add_subtask 1 demo_sub demo_store of
      (Inr t, s') \<Rightarrow> done_consistent t \<and> TASKS s' 1 = Some t
    | (Inl e, s') \<Rightarrow> False) \<and>
   (case update_subtask 1 1 demo_update demo_store of
      (Inr t, s') \<Rightarrow> done_consistent t \<and> TASKS s' 1 = Some t
    | (Inl e, s') \<Rightarrow> False)"
proof -
  obtain t2 s2 where a: "add_subtask 1 demo_sub demo_store = (Inr t2, s2)"
    by (simp add: add_subtask_def demo_store_def new_subtask_def next_subtask_id_def Let_def)
  obtain t3 s3 where u: "update_subtask 1 1 demo_update demo_store = (Inr t3, s3)"
    by (simp add: update_subtask_def demo_store_def demo_task_def Let_def)
  from done_flag_maintained[of demo_payload empty_store demo_task demo_store]
  have c: "done_consistent demo_task \<and> TASKS demo_store 1 = Some demo_task"
    by (simp add: demo_created demo_task_def)
  from done_flag_maintained[of _ demo_store _ _ 1 demo_sub t2 s2 1 demo_update t3 s3] a u
  have "done_consistent t2 \<and> TASKS s2 1 = Some t2" "done_consistent t3 \<and> TASKS s3 1 = Some t3"
    by simp_all
  with a u c show ?thesis by (simp add: demo_created)
qed

text \<open>
  C10. \<open>add_subtask\<close> and \<open>update_subtask\<close> answer 404 when the task id is not in the
  store, and \<open>update_subtask\<close> answers 404 when the task has no subtask with the given id.
  Whenever one of them fails, the status is 404 and the module state it leaves is the one
  it found: the same tasks, the same two counters.
\<close>

theorem not_found_leaves_store:
  "(TASKS s i = None \<longrightarrow>
      add_subtask i q s = (Inl (HTTPException 404 ''Task not found''), s) \<and>
      update_subtask i j u s = (Inl (HTTPException 404 ''Task not found''), s)) \<and>
   (TASKS s' k = Some t \<and> j' \<notin> st_id ` set (t_subtasks t) \<longrightarrow>
      update_subtask k j' u' s' = (Inl (HTTPException 404 ''Subtask not found''), s')) \<and>
   (add_subtask i1 q1 s1 = (Inl e1, r1) \<longrightarrow> status_code e1 = 404 \<and> r1 = s1) \<and>
   (update_subtask i2 j2 u2 s2 = (Inl e2, r2) \<longrightarrow> status_code e2 = 404 \<and> r2 = s2)"
  by (auto simp: add_subtask_def update_subtask_def find_subtask_None[symmetric]
        new_subtask_def next_subtask_id_def Let_def split: option.splits prod.splits)

theorem not_found_leaves_store_witness:
  "TASKS demo_store 7 = None \<and>
   add_subtask 7 demo_sub demo_store = (Inl (HTTPException 404 ''Task not found''), demo_store) \<and>
   update_subtask 7 1 demo_update demo_store =
     (Inl (HTTPException 404 ''Task not found''), demo_store) \<and>
   TASKS demo_store 1 = Some demo_task \<and> 9 \<notin> st_id ` set (t_subtasks demo_task) \<and>
   update_subtask 1 9 demo_update demo_store =
     (Inl (HTTPException 404 ''Subtask not found''), demo_store)"
proof -
  have h1: "TASKS demo_store 7 = None" by (simp add: demo_store_def)
  have h2: "TASKS demo_store 1 = Some demo_task \<and> 9 \<notin> st_id ` set (t_subtasks demo_task)"
    by (simp add: demo_store_def demo_task_def)
  from not_found_leaves_store[of demo_store 7 demo_sub 1 demo_update demo_store 1 demo_task 9
         demo_update 7 demo_sub demo_store "HTTPException 404 ''Task not found''" demo_store
         1 9 demo_update demo_store "HTTPException 404 ''Subtask not found''" demo_store]
    h1 h2
  show ?thesis by simp
qed

end
